theory Spec2Isabelle
  imports Complex_Main
begin

section \<open>Tensors, errors and the solver object\<close>

text \<open>
  The solver of \<^verbatim>\<open>mpc/mpc.py\<close> is embedded function by function. Tensor entries are
  modelled as real numbers. A raised Python exception is a value of type \<open>error\<close>; a function
  that may raise returns \<open>error + 'a\<close>, with \<open>Inl\<close> for the exception.
\<close>

type_synonym vec = "real list"
type_synonym mat = "real list list"
type_synonym tensor3 = "real list list list"
type_synonym tensor4 = "real list list list list"

datatype error =
    AssertionError "string option"
  | TypeError
  | ValueError
  | IndexError
  | RuntimeError
  | UnboundLocalError
  | AttributeError
  | SystemExit int "string list"

definition bindE :: "error + 'a \<Rightarrow> ('a \<Rightarrow> error + 'b) \<Rightarrow> error + 'b" where
  "bindE m k = (case m of Inl e \<Rightarrow> Inl e | Inr v \<Rightarrow> k v)"

definition assertE :: "bool \<Rightarrow> string option \<Rightarrow> error + unit" where
  "assertE b msg = (if b then Inr () else Inl (AssertionError msg))"

datatype GradMethods = AUTO_DIFF | FINITE_DIFF | ANALYTIC | ANALYTIC_CHECK

text \<open>A box bound is a float or a tensor shaped \<open>[T, n_batch, n_ctrl]\<close>.\<close>

datatype bound = BFloat real | BTensor tensor3

text \<open>A warm start \<open>u_init\<close> is given per timestep (2 dimensions) or per timestep and batch
  element (3 dimensions); \<open>prev_ctrl\<close> has 1, 2 or 3 dimensions.\<close>

datatype u_init_arg = UInit2 mat | UInit3 tensor3

datatype prev_ctrl_arg = Prev1 vec | Prev2 mat | Prev3 tensor3

text \<open>
  The arguments of \<^verbatim>\<open>MPC.__init__\<close>, which are also the attributes it stores on \<^verbatim>\<open>self\<close>;
  each field \<open>self_a\<close> is the argument and attribute \<^verbatim>\<open>a\<close>. An optional argument whose
  default is \<^verbatim>\<open>None\<close> has an option type.
\<close>

record mpc =
  self_n_state :: nat
  self_n_ctrl :: nat
  self_T :: nat
  self_x_init :: mat
  self_u_lower :: "bound option"
  self_u_upper :: "bound option"
  self_u_zero_I :: "bool list list list option"
  self_u_init :: "u_init_arg option"
  self_lqr_iter :: int
  self_grad_method :: GradMethods
  self_delta_u :: "real option"
  self_verbose :: int
  self_eps :: real
  self_back_eps :: real
  self_n_batch :: "nat option"
  self_linesearch_decay :: real
  self_max_linesearch_iter :: int
  self_exit_unconverged :: bool
  self_detach_unconverged :: bool
  self_backprop :: bool
  self_F :: "tensor4 option"
  self_f :: "tensor3 option"
  self_slew_rate_penalty :: "real option"
  self_prev_ctrl :: "prev_ctrl_arg option"
  self_not_improved_lim :: int
  self_best_cost_eps :: real

text \<open>
  \<^verbatim>\<open>MPC.__init__\<close>: the four assertions in the order of the source; every attribute is
  stored as it was passed (\<^verbatim>\<open>util.get_data_maybe\<close> and \<^verbatim>\<open>Variable\<close> do not change entries).
\<close>

definition MPC_init :: "mpc \<Rightarrow> error + mpc" where
  "MPC_init a =
     bindE (assertE ((self_u_lower a = None) = (self_u_upper a = None)) None) (\<lambda>_.
     bindE (assertE (self_max_linesearch_iter a > 0) None) (\<lambda>_.
     bindE (assertE (self_f a = None) None) (\<lambda>_.
     bindE (if self_slew_rate_penalty a \<noteq> None
            then assertE (self_F a = None \<and> self_f a = None) (Some ''unimplemented'')
            else Inr ()) (\<lambda>_.
     Inr a))))"

text \<open>The constructor's defaults, for a one-state, one-control problem of horizon 2.\<close>

definition mpc_example :: mpc where
  "mpc_example = \<lparr>
     self_n_state = 1, self_n_ctrl = 1, self_T = 2, self_x_init = [[0]],
     self_u_lower = None, self_u_upper = None, self_u_zero_I = None, self_u_init = None,
     self_lqr_iter = 10, self_grad_method = ANALYTIC, self_delta_u = None,
     self_verbose = 0, self_eps = 1 / 10000000, self_back_eps = 1 / 10000000,
     self_n_batch = None, self_linesearch_decay = 1 / 5, self_max_linesearch_iter = 10,
     self_exit_unconverged = True, self_detach_unconverged = True, self_backprop = True,
     self_F = None, self_f = None, self_slew_rate_penalty = None, self_prev_ctrl = None,
     self_not_improved_lim = 5, self_best_cost_eps = 1 / 10000 \<rparr>"

section \<open>Tensor helpers\<close>

text \<open>
  The trajectories \<open>x\<close>, \<open>u\<close> and the affine dynamics \<open>F\<close>, \<open>f\<close>, whose entries the solver
  reads and rearranges, are nested lists indexed \<open>[t][batch][...]\<close>. The cost coefficients
  \<open>C\<close> and \<open>c\<close>, of which the solver reads only the shape before it hands them to the LQR
  step, keep their shape beside their entries in row-major order.
\<close>

record tensor =
  shape :: "nat list"
  entries :: "real list"

definition ndimension :: "tensor \<Rightarrow> nat" where
  "ndimension t = length (shape t)"

definition size_dim :: "tensor \<Rightarrow> nat \<Rightarrow> nat" where
  "size_dim t i = shape t ! i"

definition at3 :: "tensor \<Rightarrow> nat \<Rightarrow> nat \<Rightarrow> nat \<Rightarrow> real" where
  "at3 t i j k = entries t ! ((i * size_dim t 1 + j) * size_dim t 2 + k)"

definition at4 :: "tensor \<Rightarrow> nat \<Rightarrow> nat \<Rightarrow> nat \<Rightarrow> nat \<Rightarrow> real" where
  "at4 t i j k l =
     entries t ! (((i * size_dim t 1 + j) * size_dim t 2 + k) * size_dim t 3 + l)"

definition build3 :: "nat \<Rightarrow> nat \<Rightarrow> nat \<Rightarrow> (nat \<Rightarrow> nat \<Rightarrow> nat \<Rightarrow> real) \<Rightarrow> tensor" where
  "build3 d0 d1 d2 g = \<lparr> shape = [d0, d1, d2],
     entries = concat (map (\<lambda>i. concat (map (\<lambda>j. map (g i j) [0..<d2]) [0..<d1])) [0..<d0]) \<rparr>"

definition build4 ::
  "nat \<Rightarrow> nat \<Rightarrow> nat \<Rightarrow> nat \<Rightarrow> (nat \<Rightarrow> nat \<Rightarrow> nat \<Rightarrow> nat \<Rightarrow> real) \<Rightarrow> tensor" where
  "build4 d0 d1 d2 d3 g = \<lparr> shape = [d0, d1, d2, d3],
     entries = concat (map (\<lambda>i. concat (map (\<lambda>j. concat (map (\<lambda>k. map (g i j k) [0..<d3])
       [0..<d2])) [0..<d1])) [0..<d0]) \<rparr>"

text \<open>\<^verbatim>\<open>expand\<close> accepts a dimension that already has the requested size or has size 1.\<close>

definition expandable :: "nat \<Rightarrow> nat \<Rightarrow> bool" where
  "expandable a n \<longleftrightarrow> a = n \<or> a = 1"

definition src_index :: "nat \<Rightarrow> nat \<Rightarrow> nat" where
  "src_index a i = (if a = 1 then 0 else i)"

text \<open>\<^verbatim>\<open>C.unsqueeze(1).expand(self.T, n_batch, self.n_state+self.n_ctrl, -1)\<close> for a
  3-dimensional \<open>C\<close>, and \<^verbatim>\<open>c.unsqueeze(1).expand(self.T, n_batch, -1)\<close> for a 2-dimensional
  \<open>c\<close>.\<close>

definition expand_C :: "nat \<Rightarrow> nat \<Rightarrow> nat \<Rightarrow> tensor \<Rightarrow> error + tensor" where
  "expand_C T n_batch n_tau C =
     (case shape C of
        [a, b, d] \<Rightarrow>
          if expandable a T \<and> expandable b n_tau
          then Inr (build4 T n_batch n_tau d
                 (\<lambda>t _ i j. entries C ! ((src_index a t * b + src_index b i) * d + j)))
          else Inl RuntimeError
      | _ \<Rightarrow> Inl RuntimeError)"

definition expand_c :: "nat \<Rightarrow> nat \<Rightarrow> tensor \<Rightarrow> error + tensor" where
  "expand_c T n_batch c =
     (case shape c of
        [a, d] \<Rightarrow>
          if expandable a T
          then Inr (build3 T n_batch d (\<lambda>t _ j. entries c ! (src_index a t * d + j)))
          else Inl RuntimeError
      | _ \<Rightarrow> Inl RuntimeError)"

fun mapE :: "('a \<Rightarrow> error + 'b) \<Rightarrow> 'a list \<Rightarrow> error + 'b list" where
  "mapE g [] = Inr []"
| "mapE g (a # as) = bindE (g a) (\<lambda>b. bindE (mapE g as) (\<lambda>bs. Inr (b # bs)))"

text \<open>Combining two tensors position by position fails when their sizes differ.\<close>

fun zipE :: "('a \<Rightarrow> 'b \<Rightarrow> error + 'c) \<Rightarrow> 'a list \<Rightarrow> 'b list \<Rightarrow> error + 'c list" where
  "zipE g [] [] = Inr []"
| "zipE g (a # as) (b # bs) = bindE (g a b) (\<lambda>c. bindE (zipE g as bs) (\<lambda>cs. Inr (c # cs)))"
| "zipE g [] (b # bs) = Inl RuntimeError"
| "zipE g (a # as) [] = Inl RuntimeError"

definition appendE :: "'a list \<Rightarrow> 'a list \<Rightarrow> error + 'a list" where
  "appendE r s = Inr (r @ s)"

text \<open>\<^verbatim>\<open>torch.cat\<close> of two tensors along dimension 1 (matrices), 2 (3-dimensional) and 3
  (4-dimensional): the leading sizes have to agree.\<close>

definition cat_mat_1 :: "mat \<Rightarrow> mat \<Rightarrow> error + mat" where
  "cat_mat_1 = zipE appendE"

definition cat3_2 :: "'a list list list \<Rightarrow> 'a list list list \<Rightarrow> error + 'a list list list" where
  "cat3_2 = zipE (zipE appendE)"

definition cat4_3 :: "tensor4 \<Rightarrow> tensor4 \<Rightarrow> error + tensor4" where
  "cat4_3 = zipE (zipE (zipE appendE))"

definition subE :: "mat \<Rightarrow> mat \<Rightarrow> error + mat" where
  "subE = zipE (zipE (\<lambda>a b. Inr (a - b)))"

definition dot :: "vec \<Rightarrow> vec \<Rightarrow> real" where
  "dot r v = sum_list (map2 (*) r v)"

definition mv :: "mat \<Rightarrow> vec \<Rightarrow> vec" where
  "mv M v = map (\<lambda>r. dot r v) M"

definition vsub :: "vec \<Rightarrow> vec \<Rightarrow> vec" where
  "vsub a b = map2 (-) a b"

definition mvE :: "mat \<Rightarrow> vec \<Rightarrow> error + vec" where
  "mvE M v = mapE (\<lambda>r. if length r = length v then Inr (dot r v) else Inl RuntimeError) M"

text \<open>
  Modelled from the spec: \<^verbatim>\<open>util.bmv\<close>, which is not among the sources. The spec writes the
  residual as \<open>x\<^sub>t\<^sub>+\<^sub>1 - F_state\<cdot>x\<^sub>t - F_ctrl\<cdot>u\<^sub>t\<close>, so \<open>bmv\<close> is the matrix-vector product of
  each batch element's matrix with that element's vector.
\<close>

definition bmv :: "tensor3 \<Rightarrow> mat \<Rightarrow> error + mat" where
  "bmv = zipE mvE"

text \<open>\<^verbatim>\<open>view\<close> reads the entries in row-major order and regroups them; the number of entries
  has to fit.\<close>

definition view2 :: "nat \<Rightarrow> real list \<Rightarrow> error + mat" where
  "view2 n xs =
     (if n = 0 \<or> length xs mod n \<noteq> 0 then Inl RuntimeError
      else Inr (map (\<lambda>i. take n (drop (i * n) xs)) [0..<length xs div n]))"

definition view3 :: "nat \<Rightarrow> nat \<Rightarrow> nat \<Rightarrow> real list \<Rightarrow> error + tensor3" where
  "view3 a b d xs =
     (if length xs = a * b * d
      then Inr (map (\<lambda>i. map (\<lambda>j. take d (drop ((i * b + j) * d) xs)) [0..<b]) [0..<a])
      else Inl RuntimeError)"

definition view4 :: "nat \<Rightarrow> nat \<Rightarrow> nat \<Rightarrow> nat \<Rightarrow> real list \<Rightarrow> error + tensor4" where
  "view4 a b d e xs =
     (if length xs = a * b * d * e
      then Inr (map (\<lambda>i. map (\<lambda>j. map (\<lambda>k. take e (drop (((i * b + j) * d + k) * e) xs))
             [0..<d]) [0..<b]) [0..<a])
      else Inl RuntimeError)"

text \<open>The size of dimension 1 of a tensor with at least one timestep.\<close>

definition size1 :: "'a list list \<Rightarrow> nat" where
  "size1 x = (case x of [] \<Rightarrow> 0 | xt # _ \<Rightarrow> length xt)"

text \<open>\<^verbatim>\<open>x[:,j].unsqueeze(1)\<close>: batch element \<open>j\<close> of every timestep, kept as a batch of one.\<close>

definition select_batch :: "tensor3 \<Rightarrow> nat \<Rightarrow> error + tensor3" where
  "select_batch x j =
     (if \<forall>xt \<in> set x. j < length xt then Inr (map (\<lambda>xt. [xt ! j]) x) else Inl IndexError)"

text \<open>\<^verbatim>\<open>list(torch.split(x, split_size=1, dim=1))\<close>.\<close>

definition split_batch :: "tensor3 \<Rightarrow> tensor3 list" where
  "split_batch x = map (\<lambda>j. map (\<lambda>xt. [xt ! j]) x) [0..<size1 x]"

text \<open>\<^verbatim>\<open>torch.cat(pieces, dim=1)\<close>: the pieces agree in the number of timesteps.\<close>

definition cat_batch :: "tensor3 list \<Rightarrow> error + tensor3" where
  "cat_batch ps =
     (case ps of
        [] \<Rightarrow> Inl RuntimeError
      | p # _ \<Rightarrow>
          if \<forall>q \<in> set ps. length q = length p
          then Inr (map (\<lambda>t. concat (map (\<lambda>q. q ! t) ps)) [0..<length p])
          else Inl RuntimeError)"

text \<open>Python's \<^verbatim>\<open>max\<close> over the entries of a 1-dimensional tensor.\<close>

definition py_max :: "real list \<Rightarrow> error + real" where
  "py_max xs = (case xs of [] \<Rightarrow> Inl ValueError | y # ys \<Rightarrow> Inr (fold max ys y))"

section \<open>Collaborators\<close>

text \<open>
  The user's dynamics function: \<open>dyn_call\<close> is the call on a batch of states and a batch of
  controls, \<open>dyn_call1\<close> the call on one state and one control vector (as the
  finite-difference strategy calls it), \<open>grad_input\<close> its analytic Jacobians with respect
  to state and control.
\<close>

record dynamics =
  dyn_call :: "mat \<Rightarrow> mat \<Rightarrow> mat"
  dyn_call1 :: "vec \<Rightarrow> vec \<Rightarrow> vec"
  grad_input :: "mat \<Rightarrow> mat \<Rightarrow> tensor3 \<times> tensor3"

text \<open>What one LQR step reports of its forward pass, as far as the solver's control flow
  reads it.\<close>

record for_out =
  costs :: "real list"
  full_du_norm :: "real list"

text \<open>The keyword arguments of the \<^verbatim>\<open>LQRStep\<close> constructor followed by the arguments of the
  call \<^verbatim>\<open>_lqr(x_init, C, c, F, f)\<close>; an absent \<open>f\<close> is passed as an empty tensor.\<close>

record lqr_args =
  lqr_n_state :: nat
  lqr_n_ctrl :: nat
  lqr_T :: nat
  lqr_u_lower :: "bound option"
  lqr_u_upper :: "bound option"
  lqr_u_zero_I :: "bool list list list option"
  lqr_true_dynamics :: "dynamics option"
  lqr_delta_u :: "real option"
  lqr_linesearch_decay :: real
  lqr_max_linesearch_iter :: int
  lqr_delta_space :: bool
  lqr_current_x :: tensor3
  lqr_current_u :: tensor3
  lqr_back_eps :: real
  lqr_no_op_forward :: bool
  lqr_x_init :: mat
  lqr_C :: tensor
  lqr_c :: tensor
  lqr_F :: "tensor4 option"
  lqr_f :: "tensor3 option"

record lqr_ret =
  ret_x :: tensor3
  ret_u :: tensor3
  ret_for_out :: for_out

text \<open>
  The code the solver calls that is not among the sources, as parameters:
  \<^verbatim>\<open>util.get_traj(T, u, x_init, dynamics, F, f)\<close> (stacked over the timesteps), one call of an
  \<^verbatim>\<open>LQRStep\<close>, \<^verbatim>\<open>CtrlPassthroughDynamics\<close>, the pair
  \<^verbatim>\<open>torch.autograd.grad(new_x[:,j].sum(), [xt, ut])\<close> for output dimension \<open>j\<close>, and
  \<^verbatim>\<open>util.jacobian(f, x, eps)\<close>.
\<close>

record env =
  get_traj ::
    "nat \<Rightarrow> tensor3 \<Rightarrow> mat \<Rightarrow> dynamics option \<Rightarrow> tensor4 option \<Rightarrow> tensor3 option
      \<Rightarrow> error + tensor3"
  LQRStep :: "lqr_args \<Rightarrow> error + lqr_ret"
  CtrlPassthroughDynamics :: "dynamics \<Rightarrow> dynamics"
  autograd_grad :: "dynamics \<Rightarrow> mat \<Rightarrow> mat \<Rightarrow> nat \<Rightarrow> mat \<times> mat"
  jacobian :: "(vec \<Rightarrow> vec) \<Rightarrow> vec \<Rightarrow> real \<Rightarrow> mat"

section \<open>Linearizing the dynamics\<close>

text \<open>
  \<^verbatim>\<open>MPC.linearize_dynamics\<close>. The flag \<open>diff\<close> only decides whether the results stay in the
  differentiation graph; the entries are the same either way. The two assertions on the
  types of \<open>x\<close> and \<open>u\<close> hold by typing. The horizon is at least 1 (\<open>self_T m - 1\<close> is a
  natural number).
\<close>

text \<open>The branch \<^verbatim>\<open>GradMethods.ANALYTIC\<close>: one call of the dynamics and of its Jacobians on
  all timesteps but the last, flattened into one batch.\<close>

definition linearize_analytic ::
  "mpc \<Rightarrow> dynamics \<Rightarrow> tensor3 \<Rightarrow> tensor3 \<Rightarrow> nat \<Rightarrow> error + tensor4 \<times> tensor3" where
  "linearize_analytic m dyn x u n_batch =
     bindE (view2 (self_n_ctrl m) (concat (concat (butlast u)))) (\<lambda>u'.
     bindE (view2 (self_n_state m) (concat (concat (butlast x)))) (\<lambda>x'.
     let new_x = dyn_call dyn x' u';
         (R, S) = grad_input dyn x' u'
     in
     bindE (bmv R x') (\<lambda>Rx.
     bindE (subE new_x Rx) (\<lambda>d.
     bindE (bmv S u') (\<lambda>Su.
     bindE (subE d Su) (\<lambda>f.
     bindE (view3 (self_T m - 1) n_batch (self_n_state m) (concat f)) (\<lambda>f3.
     bindE (view4 (self_T m - 1) n_batch (self_n_state m) (self_n_state m)
              (concat (concat R))) (\<lambda>R4.
     bindE (view4 (self_T m - 1) n_batch (self_n_state m) (self_n_ctrl m)
              (concat (concat S))) (\<lambda>S4.
     bindE (cat4_3 R4 S4) (\<lambda>F.
     Inr (F, f3)))))))))))"

text \<open>\<^verbatim>\<open>torch.stack(Ms, dim=1)\<close> of matrices.\<close>

definition stack_dim1 :: "mat list \<Rightarrow> error + tensor3" where
  "stack_dim1 Ms =
     (case Ms of
        [] \<Rightarrow> Inl RuntimeError
      | M # _ \<Rightarrow>
          if \<forall>N \<in> set Ms. length N = length M
          then Inr (map (\<lambda>b. map (\<lambda>N. N ! b) Ms) [0..<length M])
          else Inl RuntimeError)"

text \<open>The Jacobians by automatic differentiation, one output dimension at a time.\<close>

definition autodiff_jac ::
  "mpc \<Rightarrow> env \<Rightarrow> dynamics \<Rightarrow> mat \<Rightarrow> mat \<Rightarrow> mat \<Rightarrow> error + tensor3 \<times> tensor3" where
  "autodiff_jac m e dyn xt ut new_x =
     bindE (mapE (\<lambda>j. if \<forall>r \<in> set new_x. j < length r
                      then Inr (autograd_grad e dyn xt ut j) else Inl IndexError)
              [0..<self_n_state m]) (\<lambda>gs.
     bindE (stack_dim1 (map fst gs)) (\<lambda>Rt.
     bindE (stack_dim1 (map snd gs)) (\<lambda>St.
     Inr (Rt, St))))"

text \<open>\<^verbatim>\<open>torch.max(torch.abs(A - B))\<close>.\<close>

definition max_abs_diff :: "tensor3 \<Rightarrow> tensor3 \<Rightarrow> error + real" where
  "max_abs_diff A B =
     bindE (zipE (zipE (zipE (\<lambda>a b. Inr (\<bar>a - b\<bar>)))) A B) (\<lambda>D.
       case concat (concat D) of [] \<Rightarrow> Inl RuntimeError | y # ys \<Rightarrow> Inr (fold max ys y))"

definition analytic_check_error :: string where
  "analytic_check_error =
     ''nmpc.ANALYTIC_CHECK error: The analytic derivative of the dynamics function may be off.''"

definition analytic_check_ok :: "string list" where
  "analytic_check_ok =
     [''nmpc.ANALYTIC_CHECK: The analytic derivative of the dynamics function seems correct.'',
      ''Re-run with GradMethods.ANALYTIC to continue.'']"

text \<open>
  The block under \<^verbatim>\<open>if self.grad_method == GradMethods.ANALYTIC_CHECK\<close>, statement by
  statement: \<^verbatim>\<open>assert False\<close>, then the comparison of the two Jacobians, the message and
  \<^verbatim>\<open>sys.exit(0)\<close>. An exit carries its code and the lines printed before it.
\<close>

definition analytic_check ::
  "dynamics \<Rightarrow> mat \<Rightarrow> mat \<Rightarrow> tensor3 \<Rightarrow> tensor3 \<Rightarrow> error + tensor3 \<times> tensor3" where
  "analytic_check dyn xt ut Rt_autograd St_autograd =
     bindE (assertE False None) (\<lambda>_.
     let (Rt, St) = grad_input dyn xt ut;
         eps = 1 / 10 ^ 8
     in
     bindE (max_abs_diff Rt Rt_autograd) (\<lambda>dR.
     if dR > eps then Inl (SystemExit 0 [analytic_check_error])
     else bindE (max_abs_diff St St_autograd) (\<lambda>dS.
     if dS > eps then Inl (SystemExit 0 [analytic_check_error])
     else Inl (SystemExit 0 analytic_check_ok))))"

text \<open>The Jacobians by finite differences, one batch element at a time.\<close>

definition finite_diff_jac ::
  "env \<Rightarrow> dynamics \<Rightarrow> nat \<Rightarrow> mat \<Rightarrow> mat \<Rightarrow> error + tensor3 \<times> tensor3" where
  "finite_diff_jac e dyn n_batch xt ut =
     bindE (mapE (\<lambda>i. if i < length xt \<and> i < length ut
                      then Inr (jacobian e (\<lambda>s. dyn_call1 dyn s (ut ! i)) (xt ! i) (1 / 10000),
                                jacobian e (\<lambda>a. dyn_call1 dyn (xt ! i) a) (ut ! i) (1 / 10000))
                      else Inl IndexError)
              [0..<n_batch]) (\<lambda>Js.
     if Js = [] then Inl RuntimeError else Inr (map fst Js, map snd Js))"

text \<open>The body of \<^verbatim>\<open>for t in range(self.T)\<close> for \<open>t < T - 1\<close> (for \<open>t = T - 1\<close> the body
  does nothing): from the state \<open>xt\<close> it yields \<open>Ft\<close>, \<open>ft\<close> and the next state.\<close>

definition linearize_step ::
  "mpc \<Rightarrow> env \<Rightarrow> dynamics \<Rightarrow> nat \<Rightarrow> tensor3 \<Rightarrow> nat \<Rightarrow> mat \<Rightarrow> error + tensor3 \<times> mat \<times> mat" where
  "linearize_step m e dyn n_batch u t xt =
     (if t < length u then
        let ut = u ! t in
        bindE (cat_mat_1 xt ut) (\<lambda>xut.
        let new_x = dyn_call dyn xt ut in
        bindE (if self_grad_method m = AUTO_DIFF \<or> self_grad_method m = ANALYTIC_CHECK then
                 bindE (autodiff_jac m e dyn xt ut new_x) (\<lambda>(Rt, St).
                 if self_grad_method m = ANALYTIC_CHECK then analytic_check dyn xt ut Rt St
                 else Inr (Rt, St))
               else if self_grad_method m = FINITE_DIFF then finite_diff_jac e dyn n_batch xt ut
               else Inl (AssertionError None)) (\<lambda>(Rt, St).
        bindE (cat3_2 Rt St) (\<lambda>Ft.
        bindE (bmv Rt xt) (\<lambda>Rx.
        bindE (subE new_x Rx) (\<lambda>d.
        bindE (bmv St ut) (\<lambda>Su.
        bindE (subE d Su) (\<lambda>ft.
        Inr (Ft, ft, new_x))))))))
      else Inl IndexError)"

fun linearize_steps ::
  "mpc \<Rightarrow> env \<Rightarrow> dynamics \<Rightarrow> nat \<Rightarrow> tensor3 \<Rightarrow> nat list \<Rightarrow> mat \<Rightarrow> error + tensor4 \<times> tensor3" where
  "linearize_steps m e dyn n_batch u [] xt = Inr ([], [])"
| "linearize_steps m e dyn n_batch u (t # ts) xt =
     bindE (linearize_step m e dyn n_batch u t xt) (\<lambda>(Ft, ft, new_x).
     bindE (linearize_steps m e dyn n_batch u ts new_x) (\<lambda>(Fs, fs).
     Inr (Ft # Fs, ft # fs)))"

definition linearize_dynamics ::
  "mpc \<Rightarrow> env \<Rightarrow> tensor3 \<Rightarrow> tensor3 \<Rightarrow> dynamics \<Rightarrow> bool \<Rightarrow> error + tensor4 \<times> tensor3" where
  "linearize_dynamics m e x u dyn diff =
     (case x of
        [] \<Rightarrow> Inl IndexError
      | x0 # _ \<Rightarrow>
          let n_batch = length x0 in
          if self_grad_method m = ANALYTIC then linearize_analytic m dyn x u n_batch
          else bindE (linearize_steps m e dyn n_batch u [0..<self_T m - 1] x0) (\<lambda>(F, f).
               if F = [] then Inl RuntimeError else Inr (F, f)))"

section \<open>One LQR subproblem\<close>

text \<open>The position of a multi-index in the row-major entries of a tensor of the sizes
  \<open>s\<close>.\<close>

definition flat_index :: "nat list \<Rightarrow> nat list \<Rightarrow> nat" where
  "flat_index s idx = foldl (\<lambda>acc (d, i). acc * d + i) 0 (zip s idx)"

text \<open>\<^verbatim>\<open>torch.nn.ZeroPad2d((n, 0, n, 0))(C)\<close>: \<open>n\<close> zero columns to the left and \<open>n\<close> zero rows
  above in the last two dimensions; its sizes, and its entry at a multi-index.\<close>

definition zero_pad_shape :: "nat \<Rightarrow> tensor \<Rightarrow> nat list" where
  "zero_pad_shape n C =
     (let k = ndimension C in take (k - 2) (shape C) @ map (\<lambda>d. d + n) (drop (k - 2) (shape C)))"

definition zero_pad_at :: "nat \<Rightarrow> tensor \<Rightarrow> nat list \<Rightarrow> real" where
  "zero_pad_at n C idx =
     (let k = ndimension C; i = idx ! (k - 2); j = idx ! (k - 1) in
      if n \<le> i \<and> n \<le> j
      then entries C ! flat_index (shape C) (take (k - 2) idx @ [i - n, j - n])
      else 0)"

text \<open>The four blocks of \<open>slew_rate_penalty\<close> times the identity that lines 307 to 310
  assign to the corners of the augmented cost, for \<open>n_ctrl\<close> at least 1.\<close>

definition slew_block :: "real \<Rightarrow> nat \<Rightarrow> nat \<Rightarrow> nat \<Rightarrow> nat \<Rightarrow> real" where
  "slew_block g n_ctrl nsc' i j =
     (let off = nsc' - n_ctrl in
      if off \<le> i \<and> off \<le> j then (if i = j then g else 0)
      else if i < n_ctrl \<and> off \<le> j then (if i = j - off then - g else 0)
      else if off \<le> i \<and> j < n_ctrl then (if i - off = j then - g else 0)
      else if i < n_ctrl \<and> j < n_ctrl then (if i = j then g else 0)
      else 0)"

text \<open>
  Lines 304 to 312, the augmented cost: the four blocks plus the padded \<open>C\<close>. The in-place
  addition \<^verbatim>\<open>_C += ...\<close> broadcasts the padded \<open>C\<close> to the sizes
  \<open>[T, n_batch, _nsc, _nsc]\<close>: it may have fewer dimensions (at least the two that are
  padded), and each of its sizes is the size there or 1. Without controls the slice
  \<^verbatim>\<open>-self.n_ctrl:\<close> is the whole range, and the second assignment fails unless there are no
  states either.
\<close>

definition slew_C :: "mpc \<Rightarrow> real \<Rightarrow> nat \<Rightarrow> tensor \<Rightarrow> error + tensor" where
  "slew_C m g n_batch C =
     (let n = self_n_ctrl m; nsc' = self_n_state m + n + n; k = ndimension C;
          ps = zero_pad_shape n C
      in
      if (0 < n \<or> self_n_state m = 0) \<and> 2 \<le> k \<and> k \<le> 4
         \<and> list_all2 expandable ps (drop (4 - k) [self_T m, n_batch, nsc', nsc'])
      then Inr (build4 (self_T m) n_batch nsc' nsc'
             (\<lambda>t b i j. slew_block g n nsc' i j
                + zero_pad_at n C (map2 src_index ps (drop (4 - k) [t, b, i, j]))))
      else Inl RuntimeError)"

definition slew_c :: "mpc \<Rightarrow> nat \<Rightarrow> tensor \<Rightarrow> error + tensor" where
  "slew_c m n_batch c =
     (case shape c of
        [a, b, d] \<Rightarrow>
          if a = self_T m \<and> b = n_batch
          then Inr (build3 a b (self_n_ctrl m + d)
                 (\<lambda>t b j. if j < self_n_ctrl m then 0 else at3 c t b (j - self_n_ctrl m)))
          else Inl RuntimeError
      | _ \<Rightarrow> Inl RuntimeError)"

definition eye_row :: "nat \<Rightarrow> nat \<Rightarrow> vec" where
  "eye_row n i = map (\<lambda>j. if i = j then 1 else 0) [0..<n]"

definition solve_args ::
  "mpc \<Rightarrow> nat \<Rightarrow> dynamics option \<Rightarrow> tensor3 \<Rightarrow> tensor3 \<Rightarrow> bool \<Rightarrow> mat \<Rightarrow> tensor \<Rightarrow> tensor
    \<Rightarrow> tensor4 option \<Rightarrow> tensor3 option \<Rightarrow> lqr_args" where
  "solve_args m n_state' dynamics x u no_op_forward x_init C c F f = \<lparr>
     lqr_n_state = n_state', lqr_n_ctrl = self_n_ctrl m, lqr_T = self_T m,
     lqr_u_lower = self_u_lower m, lqr_u_upper = self_u_upper m,
     lqr_u_zero_I = self_u_zero_I m, lqr_true_dynamics = dynamics,
     lqr_delta_u = self_delta_u m, lqr_linesearch_decay = self_linesearch_decay m,
     lqr_max_linesearch_iter = self_max_linesearch_iter m, lqr_delta_space = True,
     lqr_current_x = x, lqr_current_u = u, lqr_back_eps = self_back_eps m,
     lqr_no_op_forward = no_op_forward,
     lqr_x_init = x_init, lqr_C = C, lqr_c = c, lqr_F = F, lqr_f = f \<rparr>"

text \<open>Lines 344 to 352: the previous control as a tensor of 3 dimensions.\<close>

definition prev_u_of :: "mpc \<Rightarrow> nat \<Rightarrow> tensor3" where
  "prev_u_of m n_batch =
     (case self_prev_ctrl m of
        Some (Prev1 v) \<Rightarrow> [[v]]
      | Some (Prev2 M) \<Rightarrow> [M]
      | Some (Prev3 P) \<Rightarrow> P
      | None \<Rightarrow> [replicate n_batch (replicate (self_n_ctrl m) 0)])"

text \<open>\<^verbatim>\<open>prev_u[0]\<close>.\<close>

definition first_slice :: "tensor3 \<Rightarrow> error + mat" where
  "first_slice p = (case p of [] \<Rightarrow> Inl IndexError | q # _ \<Rightarrow> Inr q)"

text \<open>\<^verbatim>\<open>torch.cat((prev_u, u_data[:-1]))\<close> along dimension 0: the slices of both tensors
  have the same sizes. (Nested lists do not record the sizes behind an empty dimension;
  sizes are compared on the slices and rows that are present.)\<close>

definition same_slices :: "tensor3 \<Rightarrow> tensor3 \<Rightarrow> bool" where
  "same_slices p q \<longleftrightarrow>
     (\<forall>a \<in> set p. \<forall>b \<in> set q.
        length a = length b \<and> (\<forall>r \<in> set a. \<forall>s \<in> set b. length r = length s))"

definition cat_prev :: "tensor3 \<Rightarrow> tensor3 \<Rightarrow> error + tensor3" where
  "cat_prev prev_u u =
     (if same_slices prev_u u then Inr (prev_u @ butlast u) else Inl RuntimeError)"

text \<open>\<^verbatim>\<open>torch.cat((_F0, _F1), 2)\<close>: besides the leading sizes, the rows of both tensors
  have the same length, which for \<open>_F0\<close> is \<open>width\<close>.\<close>

definition cat4_2 :: "nat \<Rightarrow> tensor4 \<Rightarrow> tensor4 \<Rightarrow> error + tensor4" where
  "cat4_2 width F0 F1 =
     (if \<forall>Ft \<in> set F1. \<forall>Fb \<in> set Ft. \<forall>r \<in> set Fb. length r = width
      then cat3_2 F0 F1 else Inl RuntimeError)"

text \<open>The \<^verbatim>\<open>else\<close> branch of \<^verbatim>\<open>solve_lqr_subproblem\<close>, lines 300 to 381: the state is
  augmented with the previous control. An absent \<open>F\<close> has no attribute \<^verbatim>\<open>data\<close>, a horizon
  of 0 asks \<^verbatim>\<open>repeat\<close> for a negative size, and without dynamics the name \<^verbatim>\<open>_dynamics\<close> is
  not bound.\<close>

definition solve_slew ::
  "mpc \<Rightarrow> env \<Rightarrow> real \<Rightarrow> mat \<Rightarrow> tensor \<Rightarrow> tensor \<Rightarrow> tensor4 option \<Rightarrow> tensor3 option
    \<Rightarrow> dynamics option \<Rightarrow> tensor3 \<Rightarrow> tensor3 \<Rightarrow> bool \<Rightarrow> error + tensor3 \<times> tensor3 \<times> lqr_ret" where
  "solve_slew m e g x_init C c F f dynamics x u no_op_forward =
     (let n_ctrl = self_n_ctrl m; nsc = self_n_state m + n_ctrl in
      bindE (if 2 \<le> ndimension C then Inr (size_dim C 1) else Inl IndexError) (\<lambda>n_batch.
      bindE (slew_C m g n_batch C) (\<lambda>C'.
      bindE (slew_c m n_batch c) (\<lambda>c'.
      bindE (case F of None \<Rightarrow> Inl AttributeError | Some F \<Rightarrow> Inr F) (\<lambda>F.
      bindE (if self_T m = 0 then Inl RuntimeError else Inr ()) (\<lambda>_.
      let F0 = replicate (self_T m - 1) (replicate n_batch
                 (map (\<lambda>i. replicate nsc 0 @ eye_row n_ctrl i) [0..<n_ctrl])) in
      bindE (cat4_3 (replicate (self_T m - 1) (replicate n_batch
                 (replicate (self_n_state m) (replicate n_ctrl 0)))) F) (\<lambda>F1.
      bindE (cat4_2 (nsc + n_ctrl) F0 F1) (\<lambda>F'.
      bindE (case f of
               None \<Rightarrow> Inr None
             | Some f \<Rightarrow> bindE (cat3_2 (replicate (self_T m - 1) (replicate n_batch
                                   (replicate n_ctrl 0))) f) (\<lambda>f'. Inr (Some f'))) (\<lambda>f'.
      let prev_u = prev_u_of m n_batch in
      bindE (cat_prev prev_u u) (\<lambda>utm1s.
      bindE (cat3_2 utm1s x) (\<lambda>x'.
      bindE (first_slice prev_u) (\<lambda>p0.
      bindE (cat_mat_1 p0 x_init) (\<lambda>x_init'.
      bindE (case dynamics of
               None \<Rightarrow> Inl UnboundLocalError
             | Some dyn \<Rightarrow> Inr (CtrlPassthroughDynamics e dyn)) (\<lambda>dynamics'.
      bindE (LQRStep e (solve_args m nsc (Some dynamics') x' u no_op_forward
               x_init' C' c' (Some F') f')) (\<lambda>r.
      Inr (map (map (drop n_ctrl)) (ret_x r), ret_u r, r))))))))))))))))"

text \<open>\<^verbatim>\<open>MPC.solve_lqr_subproblem\<close>.\<close>

definition solve_lqr_subproblem ::
  "mpc \<Rightarrow> env \<Rightarrow> mat \<Rightarrow> tensor \<Rightarrow> tensor \<Rightarrow> tensor4 option \<Rightarrow> tensor3 option
    \<Rightarrow> dynamics option \<Rightarrow> tensor3 \<Rightarrow> tensor3 \<Rightarrow> bool \<Rightarrow> error + tensor3 \<times> tensor3 \<times> lqr_ret" where
  "solve_lqr_subproblem m e x_init C c F f dynamics x u no_op_forward =
     (case self_slew_rate_penalty m of
        None \<Rightarrow>
          bindE (LQRStep e (solve_args m (self_n_state m) dynamics x u no_op_forward
                   x_init C c F f)) (\<lambda>r.
          Inr (ret_x r, ret_u r, r))
      | Some g \<Rightarrow> solve_slew m e g x_init C c F f dynamics x u no_op_forward)"

section \<open>The outer solver\<close>

text \<open>The dictionary \<^verbatim>\<open>best\<close>: per batch element the best trajectory seen, kept as a batch
  of one, with its cost and its full control-step norm.\<close>

record best =
  best_x :: "tensor3 list"
  best_u :: "tensor3 list"
  best_costs :: "real list"
  best_full_du_norm :: "real list"

text \<open>
  The local variables that the loop \<^verbatim>\<open>for i in range(self.lqr_iter)\<close> carries from one
  iteration to the next or leaves behind: \<open>st_iter\<close> is the number of iterations started
  (\<open>i + 1\<close>), \<open>st_best\<close> and \<open>st_for_out\<close> are \<open>None\<close> before the first iteration.
\<close>

record loop_state =
  st_iter :: nat
  st_u :: tensor3
  st_F :: "tensor4 option"
  st_f :: "tensor3 option"
  st_best :: "best option"
  st_for_out :: "for_out option"
  st_n_not_improved :: int

fun foldE :: "('a \<Rightarrow> 's \<Rightarrow> error + 's) \<Rightarrow> 'a list \<Rightarrow> 's \<Rightarrow> error + 's" where
  "foldE g [] s = Inr s"
| "foldE g (a # as) s = bindE (g a s) (foldE g as)"

definition index_check :: "bool \<Rightarrow> error + unit" where
  "index_check b = (if b then Inr () else Inl IndexError)"

text \<open>Line 224, the test \<^verbatim>\<open>for_out.costs[j] <= best['costs'][j] - self.best_cost_eps\<close>.\<close>

definition improves :: "mpc \<Rightarrow> for_out \<Rightarrow> best \<Rightarrow> nat \<Rightarrow> bool" where
  "improves m fo b j \<longleftrightarrow> costs fo ! j \<le> best_costs b ! j - self_best_cost_eps m"

text \<open>The body of \<^verbatim>\<open>for j in range(n_batch)\<close> (lines 224 to 229), on the pair of \<^verbatim>\<open>best\<close>
  and \<^verbatim>\<open>n_not_improved\<close>. An index out of range raises.\<close>

definition update_best_j ::
  "mpc \<Rightarrow> tensor3 \<Rightarrow> tensor3 \<Rightarrow> for_out \<Rightarrow> nat \<Rightarrow> best \<times> int \<Rightarrow> error + best \<times> int" where
  "update_best_j m x u fo j = (\<lambda>(b, n_not_improved).
     bindE (index_check (j < length (costs fo) \<and> j < length (best_costs b))) (\<lambda>_.
     if improves m fo b j then
       bindE (select_batch x j) (\<lambda>xj.
       bindE (index_check (j < length (best_x b))) (\<lambda>_.
       bindE (select_batch u j) (\<lambda>uj.
       bindE (index_check (j < length (best_u b))) (\<lambda>_.
       bindE (index_check (j < length (full_du_norm fo)
                \<and> j < length (best_full_du_norm b))) (\<lambda>_.
       Inr (b\<lparr> best_x := (best_x b)[j := xj],
               best_u := (best_u b)[j := uj],
               best_costs := (best_costs b)[j := costs fo ! j],
               best_full_du_norm := (best_full_du_norm b)[j := full_du_norm fo ! j] \<rparr>,
            0))))))
     else Inr (b, n_not_improved)))"

text \<open>Lines 215 to 229: the first LQR result becomes the record as a whole; later results
  are compared element by element.\<close>

definition track_best ::
  "mpc \<Rightarrow> nat \<Rightarrow> tensor3 \<Rightarrow> tensor3 \<Rightarrow> for_out \<Rightarrow> best option \<times> int \<Rightarrow> error + best \<times> int" where
  "track_best m n_batch x u fo = (\<lambda>(bo, n_not_improved).
     case bo of
       None \<Rightarrow>
         Inr (\<lparr> best_x = split_batch x, best_u = split_batch u,
                best_costs = costs fo, best_full_du_norm = full_du_norm fo \<rparr>,
              n_not_improved)
     | Some b \<Rightarrow> foldE (update_best_j m x u fo) [0..<n_batch] (b, n_not_improved))"

text \<open>Lines 196 to 204: the trajectory of the current controls \<open>u\<close>, with the dynamics
  linearized around it when a dynamics function is given.\<close>

definition current_trajectory ::
  "mpc \<Rightarrow> env \<Rightarrow> dynamics option \<Rightarrow> loop_state
    \<Rightarrow> error + tensor3 \<times> tensor4 option \<times> tensor3 option" where
  "current_trajectory m e dynamics st =
     (let u = st_u st; x_init = self_x_init m in
      case dynamics of
        Some dyn \<Rightarrow>
          bindE (get_traj e (self_T m) u x_init dynamics None None) (\<lambda>x.
          bindE (linearize_dynamics m e x u dyn False) (\<lambda>(F, f).
          Inr (x, Some F, Some f)))
      | None \<Rightarrow>
          bindE (get_traj e (self_T m) u x_init None (st_F st) (st_f st)) (\<lambda>x.
          Inr (x, st_F st, st_f st)))"

text \<open>Lines 194 to 229, one pass through the loop body up to the test for leaving the
  loop. The two assertions on the dimensions of \<open>x\<close> and \<open>u\<close> hold by typing. The table
  printed for a positive \<open>verbose\<close> is not modelled.\<close>

definition lqr_iteration ::
  "mpc \<Rightarrow> env \<Rightarrow> nat \<Rightarrow> tensor \<Rightarrow> tensor \<Rightarrow> dynamics option \<Rightarrow> loop_state
    \<Rightarrow> error + loop_state" where
  "lqr_iteration m e n_batch C c dynamics st =
     bindE (current_trajectory m e dynamics st) (\<lambda>(x, F, f).
     bindE (solve_lqr_subproblem m e (self_x_init m) C c F f dynamics x (st_u st) False)
       (\<lambda>(x, u, r).
     let fo = ret_for_out r;
         n_not_improved = st_n_not_improved st + 1
     in
     bindE (track_best m n_batch x u fo (st_best st, n_not_improved)) (\<lambda>(b, n_not_improved).
     Inr \<lparr> st_iter = st_iter st + 1, st_u = u, st_F = F, st_f = f, st_best = Some b,
           st_for_out = Some fo, st_n_not_improved = n_not_improved \<rparr>)))"

text \<open>Lines 243 and 244, the test for leaving the loop.\<close>

definition exit_test :: "mpc \<Rightarrow> loop_state \<Rightarrow> error + bool" where
  "exit_test m st =
     (case st_for_out st of
        None \<Rightarrow> Inl UnboundLocalError
      | Some fo \<Rightarrow>
          bindE (py_max (full_du_norm fo)) (\<lambda>mx.
          Inr (mx < self_eps m \<or> st_n_not_improved st > self_not_improved_lim m)))"

text \<open>The loop, by the number of iterations that \<^verbatim>\<open>range\<close> still holds.\<close>

fun lqr_loop ::
  "mpc \<Rightarrow> env \<Rightarrow> nat \<Rightarrow> tensor \<Rightarrow> tensor \<Rightarrow> dynamics option \<Rightarrow> nat \<Rightarrow> loop_state
    \<Rightarrow> error + loop_state" where
  "lqr_loop m e n_batch C c dynamics 0 st = Inr st"
| "lqr_loop m e n_batch C c dynamics (Suc n) st =
     bindE (lqr_iteration m e n_batch C c dynamics st) (\<lambda>st'.
     bindE (exit_test m st') (\<lambda>stop.
     if stop then Inr st' else lqr_loop m e n_batch C c dynamics n st'))"

text \<open>
  A value that the solver returns is kept with its derivative with respect to the matching
  entry of the last LQR step's result: 1 for that result itself, 0 once it is detached.
  This is what \<^verbatim>\<open>x*Ix + x.clone().detach()*(1.-Ix)\<close> changes.
\<close>

type_synonym dual = "real \<times> real"

definition var :: "real \<Rightarrow> dual" where
  "var v = (v, 1)"

definition detach :: "dual \<Rightarrow> dual" where
  "detach d = (fst d, 0)"

definition dmul :: "dual \<Rightarrow> real \<Rightarrow> dual" where
  "dmul d k = (fst d * k, snd d * k)"

definition dadd :: "dual \<Rightarrow> dual \<Rightarrow> dual" where
  "dadd d d' = (fst d + fst d', snd d + snd d')"

definition var3 :: "tensor3 \<Rightarrow> dual list list list" where
  "var3 x = map (map (map var)) x"

text \<open>\<^verbatim>\<open>Variable(I.unsqueeze(0).unsqueeze(2).expand_as(x)).type_as(x.data)\<close>.\<close>

definition expand_as :: "bool list \<Rightarrow> tensor3 \<Rightarrow> error + tensor3" where
  "expand_as I x =
     mapE (\<lambda>xt. if expandable (length I) (length xt)
                then Inr (map (\<lambda>j. map (\<lambda>_. if I ! src_index (length I) j then 1 else 0)
                                  (xt ! j)) [0..<length xt])
                else Inl RuntimeError) x"

definition mask_detach :: "tensor3 \<Rightarrow> tensor3 \<Rightarrow> dual list list list" where
  "mask_detach x Ix =
     map2 (map2 (map2 (\<lambda>v i. dadd (dmul (var v) i) (dmul (detach (var v)) (1 - i))))) x Ix"

definition lqr_warning :: "string list" where
  "lqr_warning =
     [''LQR Warning: All examples did not converge to a fixed point.'',
      ''Detaching and *not* backpropping through the bad examples.'']"

text \<open>Lines 257 to 270, on the record \<^verbatim>\<open>best\<close>, the last iteration's \<^verbatim>\<open>for_out\<close> and the
  result \<open>x\<close>, \<open>u\<close> of the final LQR step; the third component holds the printed lines.\<close>

definition detach_unconverged ::
  "mpc \<Rightarrow> best \<Rightarrow> for_out option \<Rightarrow> tensor3 \<Rightarrow> tensor3
    \<Rightarrow> error + dual list list list \<times> dual list list list \<times> string list" where
  "detach_unconverged m b for_out_last x u =
     (if self_detach_unconverged m then
        bindE (py_max (best_full_du_norm b)) (\<lambda>mx.
        if mx > self_eps m then
          bindE (assertE (\<not> self_exit_unconverged m) None) (\<lambda>_.
          let printed = (if self_verbose m \<ge> 0 then lqr_warning else []) in
          bindE (case for_out_last of None \<Rightarrow> Inl UnboundLocalError | Some fo \<Rightarrow> Inr fo) (\<lambda>fo.
          let I = map (\<lambda>v. v < self_eps m) (full_du_norm fo) in
          bindE (expand_as I x) (\<lambda>Ix.
          bindE (expand_as I u) (\<lambda>Iu.
          Inr (mask_detach x Ix, mask_detach u Iu, printed)))))
        else Inr (var3 x, var3 u, []))
      else Inr (var3 x, var3 u, []))"

record solution =
  sol_x :: "dual list list list"
  sol_u :: "dual list list list"
  sol_costs :: "real list"
  sol_printed :: "string list"

text \<open>Lines 247 to 273, after the loop.\<close>

definition finish ::
  "mpc \<Rightarrow> env \<Rightarrow> tensor \<Rightarrow> tensor \<Rightarrow> dynamics option \<Rightarrow> loop_state \<Rightarrow> error + solution" where
  "finish m e C c dynamics st =
     bindE (case st_best st of None \<Rightarrow> Inl TypeError | Some b \<Rightarrow> Inr b) (\<lambda>b.
     bindE (cat_batch (best_x b)) (\<lambda>x.
     bindE (cat_batch (best_u b)) (\<lambda>u.
     bindE (case dynamics of
              Some dyn \<Rightarrow>
                bindE (linearize_dynamics m e x u dyn True) (\<lambda>(F, f). Inr (Some F, Some f))
            | None \<Rightarrow> Inr (st_F st, st_f st)) (\<lambda>(F, f).
     bindE (solve_lqr_subproblem m e (self_x_init m) C c F f dynamics x u True) (\<lambda>(x, u, r).
     bindE (detach_unconverged m b (st_for_out st) x u) (\<lambda>(x, u, printed).
     Inr \<lparr> sol_x = x, sol_u = u, sol_costs = best_costs b, sol_printed = printed \<rparr>))))))"

text \<open>Lines 159 to 164.\<close>

definition infer_n_batch :: "mpc \<Rightarrow> tensor \<Rightarrow> error + nat" where
  "infer_n_batch m C =
     (if ndimension C = 4 then Inr (size_dim C 1)
      else case self_n_batch m of
             Some n \<Rightarrow> Inr n
           | None \<Rightarrow>
               Inl (AssertionError (Some ''Could not infer batch size, pass in as n_batch'')))"

text \<open>Lines 174 to 180.\<close>

definition initial_u :: "mpc \<Rightarrow> nat \<Rightarrow> error + tensor3" where
  "initial_u m n_batch =
     (case self_u_init m of
        None \<Rightarrow> Inr (replicate (self_T m) (replicate n_batch (replicate (self_n_ctrl m) 0)))
      | Some (UInit3 u) \<Rightarrow> Inr u
      | Some (UInit2 u) \<Rightarrow>
          if expandable (length u) (self_T m)
          then Inr (map (\<lambda>t. replicate n_batch (u ! src_index (length u) t)) [0..<self_T m])
          else Inl RuntimeError)"

text \<open>Lines 166 to 273: \<^verbatim>\<open>MPC.forward\<close> once the batch size is known. The initial cost
  printed for a positive \<open>verbose\<close> is not modelled.\<close>

definition forward_with ::
  "mpc \<Rightarrow> env \<Rightarrow> nat \<Rightarrow> tensor \<Rightarrow> tensor \<Rightarrow> dynamics option \<Rightarrow> error + solution" where
  "forward_with m e n_batch C c dynamics =
     bindE (if ndimension C = 3
            then expand_C (self_T m) n_batch (self_n_state m + self_n_ctrl m) C
            else Inr C) (\<lambda>C.
     bindE (if ndimension c = 2 then expand_c (self_T m) n_batch c else Inr c) (\<lambda>c.
     bindE (assertE (length (self_x_init m) = n_batch) None) (\<lambda>_.
     bindE (initial_u m n_batch) (\<lambda>u.
     bindE (lqr_loop m e n_batch C c dynamics (nat (self_lqr_iter m))
              \<lparr> st_iter = 0, st_u = u, st_F = self_F m, st_f = self_f m, st_best = None,
                st_for_out = None, st_n_not_improved = 0 \<rparr>) (\<lambda>st.
     finish m e C c dynamics st)))))"

text \<open>\<^verbatim>\<open>MPC.forward\<close>.\<close>

definition forward ::
  "mpc \<Rightarrow> env \<Rightarrow> tensor \<Rightarrow> tensor \<Rightarrow> dynamics option \<Rightarrow> error + solution" where
  "forward m e C c dynamics =
     bindE (infer_n_batch m C) (\<lambda>n_batch. forward_with m e n_batch C c dynamics)"

section \<open>The LQR step as the spec describes it\<close>

text \<open>
  The module \<^verbatim>\<open>lqr_step\<close> is not among the sources. Its forward phase is modelled from the
  spec, section 4.3: starting from \<open>x\<^sub>0\<close>, each timestep computes the control from the
  feedback gain and the feedforward term scaled by the step size \<open>\<alpha>\<close>, clipped into the
  box, and rolls the dynamics forward (the true dynamics if available, else the affine
  approximation) while the cost accumulates; unless the step runs in the no-op forward
  mode, a batch element whose new cost is not lower than the previous iterate's cost halves
  its \<open>\<alpha>\<close> and retries, up to the configured number of attempts, and then keeps the smallest
  step size tried. What the spec leaves open is a parameter: the backward phase that yields
  the gains, and the norm reported for the full control update.
\<close>

text \<open>Modelled from the spec: the gain sequence, per timestep and batch element the
  feedback gain \<open>K\<close> (\<open>n_ctrl \<times> n_state\<close>) and the feedforward term \<open>k\<close> (\<open>n_ctrl\<close>).\<close>

record gain_seq =
  gain_K :: tensor4
  gain_k :: tensor3

text \<open>Modelled from the spec: the parts of the LQR step that its forward phase takes as
  given, the backward phase (Riccati recursion with the box-constrained micro-solve) and
  the norm of the full control update of one batch element.\<close>

record lqr_parts =
  backward_pass :: "lqr_args \<Rightarrow> error + gain_seq"
  update_norm :: "lqr_args \<Rightarrow> gain_seq \<Rightarrow> nat \<Rightarrow> real"

text \<open>A tensor of 3 dimensions has the sizes \<open>[T, B, n]\<close>.\<close>

definition has_shape3 :: "nat \<Rightarrow> nat \<Rightarrow> nat \<Rightarrow> tensor3 \<Rightarrow> bool" where
  "has_shape3 T B n x \<longleftrightarrow>
     length x = T \<and> (\<forall>xt \<in> set x. length xt = B \<and> (\<forall>r \<in> set xt. length r = n))"

text \<open>Modelled from the spec: a box bound at timestep \<open>t\<close>, batch element \<open>j\<close> and control
  dimension \<open>k\<close> (the bounds are scalars or full \<open>[T, B, n_ctrl]\<close> tensors).\<close>

definition bound_at :: "bound \<Rightarrow> nat \<Rightarrow> nat \<Rightarrow> nat \<Rightarrow> real" where
  "bound_at b t j k = (case b of BFloat v \<Rightarrow> v | BTensor ts \<Rightarrow> ts ! t ! j ! k)"

definition bound_fits :: "nat \<Rightarrow> nat \<Rightarrow> nat \<Rightarrow> bound option \<Rightarrow> bool" where
  "bound_fits T B n bo \<longleftrightarrow>
     (case bo of Some (BTensor ts) \<Rightarrow> has_shape3 T B n ts | _ \<Rightarrow> True)"

text \<open>Modelled from the spec: clipping a control into the box; without bounds the problem
  is unconstrained.\<close>

definition clip :: "real \<Rightarrow> real \<Rightarrow> real \<Rightarrow> real" where
  "clip lo hi v = min hi (max lo v)"

definition clip_box :: "bound option \<Rightarrow> bound option \<Rightarrow> nat \<Rightarrow> nat \<Rightarrow> nat \<Rightarrow> real \<Rightarrow> real" where
  "clip_box lo hi t j k v =
     (case lo of
        Some l \<Rightarrow> (case hi of Some h \<Rightarrow> clip (bound_at l t j k) (bound_at h t j k) v | None \<Rightarrow> v)
      | None \<Rightarrow> v)"

text \<open>Modelled from the spec: rolling the dynamics one step forward for one batch element,
  with the true dynamics if available, else with the affine approximation
  \<open>F\<^sub>t\<cdot>[x\<^sub>t; u\<^sub>t] + f\<^sub>t\<close>.\<close>

definition next_state :: "lqr_args \<Rightarrow> nat \<Rightarrow> nat \<Rightarrow> vec \<Rightarrow> vec \<Rightarrow> vec" where
  "next_state a t j x u =
     (case lqr_true_dynamics a of
        Some dyn \<Rightarrow> dyn_call1 dyn x u
      | None \<Rightarrow>
          (case lqr_F a of
             Some F \<Rightarrow>
               (let y = mv (F ! t ! j) (x @ u) in
                case lqr_f a of Some f \<Rightarrow> map2 (+) y (f ! t ! j) | None \<Rightarrow> y)
           | None \<Rightarrow> x))"

text \<open>Modelled from the spec: the rollout of batch element \<open>j\<close> with step size \<open>\<alpha>\<close> over the
  timesteps \<open>ts\<close> from the state \<open>xh\<close>, in the delta space around the current trajectory; it
  yields the pairs of state and clipped control.\<close>

fun rollout_j ::
  "lqr_args \<Rightarrow> gain_seq \<Rightarrow> nat \<Rightarrow> real \<Rightarrow> nat list \<Rightarrow> vec \<Rightarrow> (vec \<times> vec) list" where
  "rollout_j a g j \<alpha> [] xh = []"
| "rollout_j a g j \<alpha> (t # ts) xh =
     (let dx = vsub xh (lqr_current_x a ! t ! j);
          uh = map (\<lambda>k. clip_box (lqr_u_lower a) (lqr_u_upper a) t j k
                          (lqr_current_u a ! t ! j ! k + \<alpha> * gain_k g ! t ! j ! k
                            + dot (gain_K g ! t ! j ! k) dx))
                 [0..<lqr_n_ctrl a]
      in (xh, uh) # rollout_j a g j \<alpha> ts (next_state a t j xh uh))"

text \<open>Modelled from the spec: the quadratic cost \<open>\<tau>\<^sup>T C\<^sub>t \<tau> / 2 + c\<^sub>t\<^sup>T \<tau>\<close> of one timestep with
  \<open>\<tau> = [x\<^sub>t; u\<^sub>t]\<close>, and the cost accumulated along a rollout.\<close>

definition stage_cost :: "lqr_args \<Rightarrow> nat \<Rightarrow> nat \<Rightarrow> vec \<times> vec \<Rightarrow> real" where
  "stage_cost a j t xu =
     (let tau = fst xu @ snd xu; n = length tau in
      (\<Sum>p \<leftarrow> [0..<n]. \<Sum>q \<leftarrow> [0..<n]. tau ! p * at4 (lqr_C a) t j p q * tau ! q) / 2
      + (\<Sum>p \<leftarrow> [0..<n]. at3 (lqr_c a) t j p * tau ! p))"

definition traj_cost :: "lqr_args \<Rightarrow> nat \<Rightarrow> (vec \<times> vec) list \<Rightarrow> real" where
  "traj_cost a j tr = sum_list (map2 (stage_cost a j) [0..<length tr] tr)"

text \<open>Modelled from the spec: the backtracking line search of one batch element, which
  halves \<open>\<alpha>\<close> while the new cost is not lower than the previous iterate's cost and the
  attempts last; the no-op forward mode keeps \<open>\<alpha> = 1\<close>.\<close>

fun backtrack :: "(real \<Rightarrow> bool) \<Rightarrow> nat \<Rightarrow> real \<Rightarrow> real" where
  "backtrack ok 0 \<alpha> = \<alpha>"
| "backtrack ok (Suc n) \<alpha> = (if ok \<alpha> then \<alpha> else backtrack ok n (\<alpha> / 2))"

definition step_size :: "lqr_args \<Rightarrow> gain_seq \<Rightarrow> nat \<Rightarrow> real" where
  "step_size a g j =
     (if lqr_no_op_forward a then 1
      else backtrack
        (\<lambda>\<alpha>. traj_cost a j (rollout_j a g j \<alpha> [0..<lqr_T a] (lqr_x_init a ! j))
              < traj_cost a j (map (\<lambda>t. (lqr_current_x a ! t ! j, lqr_current_u a ! t ! j))
                                [0..<lqr_T a]))
        (nat (lqr_max_linesearch_iter a)) 1)"

text \<open>Modelled from the spec: the forward phase, which returns the rolled-out \<open>x\<close> and \<open>u\<close>,
  the realized cost of every batch element and the norm of its full control update.\<close>

definition forward_phase :: "lqr_parts \<Rightarrow> lqr_args \<Rightarrow> gain_seq \<Rightarrow> lqr_ret" where
  "forward_phase p a g =
     (let T = lqr_T a; B = length (lqr_x_init a);
          trs = map (\<lambda>j. rollout_j a g j (step_size a g j) [0..<T] (lqr_x_init a ! j)) [0..<B]
      in \<lparr> ret_x = map (\<lambda>t. map (\<lambda>j. fst (trs ! j ! t)) [0..<B]) [0..<T],
            ret_u = map (\<lambda>t. map (\<lambda>j. snd (trs ! j ! t)) [0..<B]) [0..<T],
            ret_for_out = \<lparr> costs = map (\<lambda>j. traj_cost a j (trs ! j)) [0..<B],
                            full_du_norm = map (update_norm p a g) [0..<B] \<rparr> \<rparr>)"

text \<open>Modelled from the spec: one LQR step, the backward phase followed by the forward
  phase. Tensors that do not have the sizes of the problem are rejected.\<close>

definition LQRStep_spec :: "lqr_parts \<Rightarrow> lqr_args \<Rightarrow> error + lqr_ret" where
  "LQRStep_spec p a =
     (let T = lqr_T a; B = length (lqr_x_init a) in
      if has_shape3 T B (lqr_n_state a) (lqr_current_x a)
         \<and> has_shape3 T B (lqr_n_ctrl a) (lqr_current_u a)
         \<and> bound_fits T B (lqr_n_ctrl a) (lqr_u_lower a)
         \<and> bound_fits T B (lqr_n_ctrl a) (lqr_u_upper a)
      then bindE (backward_pass p a) (\<lambda>g. Inr (forward_phase p a g))
      else Inl RuntimeError)"

section \<open>Notions used in the statements\<close>

text \<open>The first \<open>k\<close> passes through the loop body, without the test.\<close>

fun iterations ::
  "mpc \<Rightarrow> env \<Rightarrow> nat \<Rightarrow> tensor \<Rightarrow> tensor \<Rightarrow> dynamics option \<Rightarrow> nat \<Rightarrow> loop_state
    \<Rightarrow> error + loop_state" where
  "iterations m e n_batch C c dynamics 0 st = Inr st"
| "iterations m e n_batch C c dynamics (Suc k) st =
     bindE (lqr_iteration m e n_batch C c dynamics st)
       (iterations m e n_batch C c dynamics k)"

text \<open>The lower bound does not exceed the upper bound anywhere in a box of the sizes
  \<open>[T, B, n]\<close>.\<close>

definition box_ordered :: "nat \<Rightarrow> nat \<Rightarrow> nat \<Rightarrow> bound \<Rightarrow> bound \<Rightarrow> bool" where
  "box_ordered T B n lo hi \<longleftrightarrow>
     (\<forall>t<T. \<forall>j<B. \<forall>k<n. bound_at lo t j k \<le> bound_at hi t j k)"

text \<open>The controls \<open>u\<close> have the sizes \<open>[T, B, n]\<close> and every entry lies between its
  bounds.\<close>

definition in_box :: "nat \<Rightarrow> nat \<Rightarrow> nat \<Rightarrow> bound \<Rightarrow> bound \<Rightarrow> tensor3 \<Rightarrow> bool" where
  "in_box T B n lo hi u \<longleftrightarrow>
     length u = T
     \<and> (\<forall>t<T. length (u ! t) = B
          \<and> (\<forall>j<B. length (u ! t ! j) = n
               \<and> (\<forall>k<n. bound_at lo t j k \<le> u ! t ! j ! k \<and> u ! t ! j ! k \<le> bound_at hi t j k)))"

text \<open>The states obtained by rolling the dynamics from \<open>x0\<close> under the controls \<open>u\<close>.\<close>

primrec rollout :: "dynamics \<Rightarrow> mat \<Rightarrow> tensor3 \<Rightarrow> nat \<Rightarrow> mat" where
  "rollout dyn x0 u 0 = x0"
| "rollout dyn x0 u (Suc t) = dyn_call dyn (rollout dyn x0 u t) (u ! t)"

text \<open>
  The nominal state at which a strategy linearizes timestep \<open>t\<close>: the analytic strategy
  reads it from the given trajectory \<open>x\<close>; the other strategies keep \<open>x[0]\<close> only and roll
  the dynamics forward from it, which gives the same states whenever \<open>x\<close> is a trajectory
  of the dynamics under \<open>u\<close>.
\<close>

definition nominal :: "mpc \<Rightarrow> dynamics \<Rightarrow> tensor3 \<Rightarrow> tensor3 \<Rightarrow> nat \<Rightarrow> mat" where
  "nominal m dyn x u t =
     (if self_grad_method m = ANALYTIC then x ! t else rollout dyn (x ! 0) u t)"

text \<open>Entry \<open>j\<close> of the record \<open>b'\<close> is the LQR result \<open>x\<close>, \<open>u\<close>, \<open>fo\<close> of this iteration.\<close>

definition adopted :: "tensor3 \<Rightarrow> tensor3 \<Rightarrow> for_out \<Rightarrow> best \<Rightarrow> nat \<Rightarrow> bool" where
  "adopted x u fo b' j \<longleftrightarrow>
     best_x b' ! j = map (\<lambda>xt. [xt ! j]) x \<and> best_u b' ! j = map (\<lambda>ut. [ut ! j]) u
     \<and> best_costs b' ! j = costs fo ! j \<and> best_full_du_norm b' ! j = full_du_norm fo ! j"

text \<open>Entry \<open>j\<close> of the record \<open>b'\<close> is what it was in \<open>b\<close>.\<close>

definition kept :: "best \<Rightarrow> best \<Rightarrow> nat \<Rightarrow> bool" where
  "kept b b' j \<longleftrightarrow>
     best_x b' ! j = best_x b ! j \<and> best_u b' ! j = best_u b ! j
     \<and> best_costs b' ! j = best_costs b ! j
     \<and> best_full_du_norm b' ! j = best_full_du_norm b ! j"

definition same_sizes :: "best \<Rightarrow> best \<Rightarrow> bool" where
  "same_sizes b b' \<longleftrightarrow>
     length (best_x b') = length (best_x b) \<and> length (best_u b') = length (best_u b)
     \<and> length (best_costs b') = length (best_costs b)
     \<and> length (best_full_du_norm b') = length (best_full_du_norm b)"

section \<open>Concrete instances\<close>

text \<open>A stand-in for the LQR step: it halves every control and reports, per batch element,
  the sum of the absolute controls of the first timestep as cost and as step norm.\<close>

definition toy_lqr :: "lqr_args \<Rightarrow> error + lqr_ret" where
  "toy_lqr a =
     (let u' = map (map (map (\<lambda>v. v / 2))) (lqr_current_u a);
          sizes = (case u' of [] \<Rightarrow> [] | ut # _ \<Rightarrow> map (\<lambda>r. sum_list (map abs r)) ut)
      in Inr \<lparr> ret_x = lqr_current_x a, ret_u = u',
               ret_for_out = \<lparr> costs = sizes, full_du_norm = sizes \<rparr> \<rparr>)"

definition toy_env :: env where
  "toy_env = \<lparr> get_traj = (\<lambda>T u x_init dynamics F f. Inr (replicate T x_init)),
     LQRStep = toy_lqr, CtrlPassthroughDynamics = (\<lambda>d. d),
     autograd_grad = (\<lambda>d xt ut j. ([], [])), jacobian = (\<lambda>g v h. []) \<rparr>"

text \<open>Two batch elements, horizon 2, threshold \<open>eps = 1/5\<close>.\<close>

definition mpc_loop :: mpc where
  "mpc_loop = mpc_example \<lparr> self_x_init := [[0], [0]],
     self_u_init := Some (UInit3 [[[1], [4]], [[1], [4]]]), self_eps := 1 / 5 \<rparr>"

definition C_ex :: tensor where
  "C_ex = \<lparr> shape = [2, 2, 2, 2], entries = replicate 16 1 \<rparr>"

definition C3_ex :: tensor where
  "C3_ex = \<lparr> shape = [2, 2, 2], entries = replicate 8 1 \<rparr>"

definition c_ex :: tensor where
  "c_ex = \<lparr> shape = [2, 2, 2], entries = replicate 8 0 \<rparr>"

definition st0 :: loop_state where
  "st0 = \<lparr> st_iter = 0, st_u = [[[1], [4]], [[1], [4]]], st_F = None, st_f = None,
     st_best = None, st_for_out = None, st_n_not_improved = 0 \<rparr>"

text \<open>The state of that run after its first iteration.\<close>

definition st1 :: loop_state where
  "st1 = \<lparr> st_iter = 1, st_u = [[[1 / 2], [2]], [[1 / 2], [2]]], st_F = None, st_f = None,
     st_best = Some \<lparr> best_x = [[[[0]], [[0]]], [[[0]], [[0]]]],
                      best_u = [[[[1 / 2]], [[1 / 2]]], [[[2]], [[2]]]],
                      best_costs = [1 / 2, 2], best_full_du_norm = [1 / 2, 2] \<rparr>,
     st_for_out = Some \<lparr> costs = [1 / 2, 2], full_du_norm = [1 / 2, 2] \<rparr>,
     st_n_not_improved = 1 \<rparr>"

text \<open>A best-trajectory record of two elements and an LQR report.\<close>

definition b_cx :: best where
  "b_cx = \<lparr> best_x = [[[[0]], [[0]]], [[[0]], [[0]]]], best_u = [[[[3]], [[3]]], [[[4]], [[4]]]],
     best_costs = [9, 16], best_full_du_norm = [2, 1] \<rparr>"

definition fo_new :: for_out where
  "fo_new = \<lparr> costs = [1, 16], full_du_norm = [1 / 2, 1 / 2] \<rparr>"

text \<open>Dynamics with the next state \<open>x\<^sup>2 + u\<close> in every component, their Jacobians, and the
  same dynamics with an analytic Jacobian that is wrong.\<close>

definition sq_step :: "vec \<Rightarrow> vec \<Rightarrow> vec" where
  "sq_step x u = map2 (\<lambda>a b. a * a + b) x u"

definition sq_dyn :: dynamics where
  "sq_dyn = \<lparr> dyn_call = (\<lambda>xs us. map2 sq_step xs us), dyn_call1 = sq_step,
     grad_input = (\<lambda>xs us.
       (map (\<lambda>x. map (\<lambda>i. map (\<lambda>k. if i = k then 2 * x ! i else 0) [0..<length x])
                    [0..<length x]) xs,
        map (\<lambda>u. map (\<lambda>i. map (\<lambda>k. if i = k then 1 else 0) [0..<length u])
                    [0..<length u]) us)) \<rparr>"

definition bad_dyn :: dynamics where
  "bad_dyn = sq_dyn \<lparr> grad_input := (\<lambda>xs us. (map (\<lambda>x. [[0]]) xs, map (\<lambda>u. [[0]]) us)) \<rparr>"

definition fd_jacobian :: "(vec \<Rightarrow> vec) \<Rightarrow> vec \<Rightarrow> real \<Rightarrow> mat" where
  "fd_jacobian g v h =
     map (\<lambda>i. map (\<lambda>k. (g (v[k := v ! k + h]) ! i - g (v[k := v ! k - h]) ! i) / (2 * h))
                [0..<length v]) [0..<length (g v)]"

definition lin_env :: env where
  "lin_env = toy_env \<lparr>
     autograd_grad := (\<lambda>dyn xt ut j.
       (map (\<lambda>x. map (\<lambda>k. if k = j then 2 * x ! j else 0) [0..<length x]) xt,
        map (\<lambda>u. map (\<lambda>k. if k = j then 1 else 0) [0..<length u]) ut)),
     jacobian := fd_jacobian \<rparr>"

definition mpc_lin :: "GradMethods \<Rightarrow> mpc" where
  "mpc_lin gm = mpc_example \<lparr> self_T := 3, self_grad_method := gm \<rparr>"

definition x_lin :: tensor3 where
  "x_lin = [[[1], [2]], [[2], [4]], [[4], [17]]]"

definition u_lin :: tensor3 where
  "u_lin = [[[1], [0]], [[0], [1]], [[0], [0]]]"

definition F_lin :: tensor4 where
  "F_lin = [[[[2, 1]], [[4, 1]]], [[[4, 1]], [[8, 1]]]]"

definition f_lin :: tensor3 where
  "f_lin = [[[- 1], [- 4]], [[- 4], [- 16]]]"

text \<open>A backward phase whose gains push every control down by the step size, one state,
  one control, horizon 2, with the box \<open>[-1/2, 1/2]\<close> and the affine dynamics
  \<open>x\<^sub>t\<^sub>+\<^sub>1 = x\<^sub>t + u\<^sub>t\<close>.\<close>

definition parts_ex :: lqr_parts where
  "parts_ex = \<lparr>
     backward_pass = (\<lambda>a. Inr \<lparr>
       gain_K = replicate (lqr_T a) (replicate (length (lqr_x_init a))
                  (replicate (lqr_n_ctrl a) (replicate (lqr_n_state a) 0))),
       gain_k = replicate (lqr_T a) (replicate (length (lqr_x_init a))
                  (replicate (lqr_n_ctrl a) (- 1))) \<rparr>),
     update_norm = (\<lambda>a g j. 0) \<rparr>"

definition mpc_box :: mpc where
  "mpc_box = mpc_example \<lparr> self_x_init := [[1]], self_u_lower := Some (BFloat (- 1 / 2)),
     self_u_upper := Some (BFloat (1 / 2)), self_F := Some [[[[1, 1]]]] \<rparr>"

definition C_box :: tensor where
  "C_box = \<lparr> shape = [2, 1, 2, 2], entries = [1, 0, 0, 1, 1, 0, 0, 1] \<rparr>"

definition c_box :: tensor where
  "c_box = \<lparr> shape = [2, 1, 2], entries = [0, 0, 0, 0] \<rparr>"

text \<open>Stand-ins for \<^verbatim>\<open>util.get_traj\<close> with a dynamics function, the rollout from \<open>x_init\<close>,
  and for \<^verbatim>\<open>CtrlPassthroughDynamics\<close>, under which the augmented state \<open>[u\<^sub>t\<^sub>-\<^sub>1, x\<^sub>t]\<close> steps
  to \<open>[u\<^sub>t, x\<^sub>t\<^sub>+\<^sub>1]\<close>; the dynamics \<open>x\<^sub>t\<^sub>+\<^sub>1 = x\<^sub>t + u\<^sub>t\<close> with their Jacobians.\<close>

definition add_dyn :: dynamics where
  "add_dyn = \<lparr> dyn_call = (\<lambda>xs us. map2 (map2 (+)) xs us), dyn_call1 = map2 (+),
     grad_input = (\<lambda>xs us.
       (map (\<lambda>x. map (\<lambda>i. map (\<lambda>k. if i = k then 1 else 0) [0..<length x])
                    [0..<length x]) xs,
        map (\<lambda>u. map (\<lambda>i. map (\<lambda>k. if i = k then 1 else 0) [0..<length u])
                    [0..<length u]) us)) \<rparr>"

definition passthrough :: "dynamics \<Rightarrow> dynamics" where
  "passthrough d = \<lparr>
     dyn_call = (\<lambda>xs us. map2 (\<lambda>x u. u @ dyn_call1 d (drop (length u) x) u) xs us),
     dyn_call1 = (\<lambda>x u. u @ dyn_call1 d (drop (length u) x) u),
     grad_input = (\<lambda>xs us. ([], [])) \<rparr>"

definition traj_env :: env where
  "traj_env = toy_env \<lparr>
     get_traj := (\<lambda>T u x_init dynamics F f.
       case dynamics of
         Some d \<Rightarrow> Inr (map (rollout d x_init u) [0..<T])
       | None \<Rightarrow> Inr (replicate T x_init)),
     CtrlPassthroughDynamics := passthrough \<rparr>"

text \<open>The same box with a slew-rate penalty, a previous control, a warm start outside the
  box and one outer iteration; a cost \<open>C\<close> with one timestep, which the wrapper
  broadcasts over the horizon.\<close>

definition mpc_slew :: mpc where
  "mpc_slew = mpc_example \<lparr> self_x_init := [[1]], self_u_lower := Some (BFloat (- 1 / 2)),
     self_u_upper := Some (BFloat (1 / 2)), self_u_init := Some (UInit3 [[[3]], [[3]]]),
     self_lqr_iter := 1, self_slew_rate_penalty := Some 1,
     self_prev_ctrl := Some (Prev1 [1 / 4]) \<rparr>"

definition C_one :: tensor where
  "C_one = \<lparr> shape = [1, 1, 2, 2], entries = [1, 0, 0, 1] \<rparr>"

text \<open>A stand-in for an LQR step that does not settle: it reflects every control about
  \<open>3/2\<close> and reports, per batch element, the cost 0 and the size of the new control of the
  first timestep as step norm.\<close>

definition reflect_lqr :: "lqr_args \<Rightarrow> error + lqr_ret" where
  "reflect_lqr a =
     (let u' = map (map (map (\<lambda>v. 3 - v))) (lqr_current_u a);
          sizes = (case u' of [] \<Rightarrow> [] | ut # _ \<Rightarrow> map (\<lambda>r. sum_list (map abs r)) ut)
      in Inr \<lparr> ret_x = lqr_current_x a, ret_u = u',
               ret_for_out = \<lparr> costs = map (\<lambda>_. 0) sizes, full_du_norm = sizes \<rparr> \<rparr>)"

text \<open>Two batch elements, horizon 2, threshold \<open>eps = 3/2\<close>, no exit on an unconverged
  element.\<close>

definition mpc_reflect :: mpc where
  "mpc_reflect = mpc_example \<lparr> self_x_init := [[0], [0]],
     self_u_init := Some (UInit3 [[[1], [2]], [[1], [2]]]), self_eps := 3 / 2,
     self_exit_unconverged := False \<rparr>"

section \<open>Construction\<close>

lemma bindE_Inr [simp]: "bindE (Inr v) k = k v"
  by (simp add: bindE_def)

lemma bindE_Inl [simp]: "bindE (Inl e) k = Inl e"
  by (simp add: bindE_def)

lemma bindE_eq_Inr: "bindE m k = Inr r \<longleftrightarrow> (\<exists>v. m = Inr v \<and> k v = Inr r)"
  by (cases m) simp_all

text \<open>
  C9. Constructing the solver with exactly one of \<open>u_lower\<close>, \<open>u_upper\<close> present fails with
  an assertion error. With both or neither present the bound check passes: the constructor
  returns the solver whenever its other assertions hold as well.
\<close>

theorem init_bounds_both_or_neither:
  "((self_u_lower a = None) \<noteq> (self_u_upper a = None)
      \<longrightarrow> MPC_init a = Inl (AssertionError None))
   \<and> ((self_u_lower a = None) = (self_u_upper a = None)
        \<and> 0 < self_max_linesearch_iter a \<and> self_f a = None
        \<and> (self_slew_rate_penalty a \<noteq> None \<longrightarrow> self_F a = None)
      \<longrightarrow> MPC_init a = Inr a)"
  by (auto simp: MPC_init_def assertE_def)

theorem init_bounds_both_or_neither_witness:
  "MPC_init (mpc_example\<lparr>self_u_lower := Some (BFloat 0)\<rparr>) = Inl (AssertionError None)
   \<and> MPC_init (mpc_example\<lparr>self_u_upper := Some (BFloat 1)\<rparr>) = Inl (AssertionError None)
   \<and> MPC_init mpc_example = Inr mpc_example
   \<and> MPC_init (mpc_example\<lparr>self_u_lower := Some (BFloat 0), self_u_upper := Some (BFloat 1)\<rparr>)
       = Inr (mpc_example\<lparr>self_u_lower := Some (BFloat 0), self_u_upper := Some (BFloat 1)\<rparr>)"
  using init_bounds_both_or_neither [of "mpc_example\<lparr>self_u_lower := Some (BFloat 0)\<rparr>"]
    init_bounds_both_or_neither [of "mpc_example\<lparr>self_u_upper := Some (BFloat 1)\<rparr>"]
    init_bounds_both_or_neither [of mpc_example]
    init_bounds_both_or_neither
      [of "mpc_example\<lparr>self_u_lower := Some (BFloat 0), self_u_upper := Some (BFloat 1)\<rparr>"]
  by (simp add: mpc_example_def)

text \<open>
  C10. Constructing the solver with an affine residual \<open>f\<close> that is not \<^verbatim>\<open>None\<close> always
  fails with an assertion error, with or without a slew-rate penalty; a solver that was
  constructed has no \<open>f\<close>, and precomputed dynamics \<open>F\<close> alone are accepted (without a
  slew-rate penalty, when the other assertions hold).
\<close>

theorem init_rejects_f:
  "(self_f a \<noteq> None \<longrightarrow> MPC_init a = Inl (AssertionError None))
   \<and> (MPC_init a = Inr m \<longrightarrow> self_f m = None)
   \<and> (self_f a = None \<and> (self_u_lower a = None) = (self_u_upper a = None)
        \<and> 0 < self_max_linesearch_iter a \<and> self_slew_rate_penalty a = None
      \<longrightarrow> MPC_init (a\<lparr>self_F := Some Fs\<rparr>) = Inr (a\<lparr>self_F := Some Fs\<rparr>))"
  by (auto simp: MPC_init_def assertE_def split: if_splits)

theorem init_rejects_f_witness:
  "MPC_init (mpc_example\<lparr>self_f := Some [[[0]]]\<rparr>) = Inl (AssertionError None)
   \<and> MPC_init (mpc_example\<lparr>self_f := Some [[[0]]], self_slew_rate_penalty := Some 1\<rparr>)
       = Inl (AssertionError None)
   \<and> MPC_init (mpc_example\<lparr>self_F := Some [[[[1, 1]]]]\<rparr>)
       = Inr (mpc_example\<lparr>self_F := Some [[[[1, 1]]]]\<rparr>)"
  using init_rejects_f [of "mpc_example\<lparr>self_f := Some [[[0]]]\<rparr>"]
    init_rejects_f
      [of "mpc_example\<lparr>self_f := Some [[[0]]], self_slew_rate_penalty := Some 1\<rparr>"]
    init_rejects_f [of mpc_example _ "[[[[1, 1]]]]"]
  by (simp add: mpc_example_def)

section \<open>The batch size\<close>

text \<open>
  C8. At entry to \<open>forward\<close> the batch size is the size of dimension 1 of \<open>C\<close> when \<open>C\<close> has
  4 dimensions, and the configured \<open>n_batch\<close> otherwise; when \<open>C\<close> does not have 4 dimensions
  and no \<open>n_batch\<close> is configured, \<open>forward\<close> fails at once with the assertion error
  for the batch size.
\<close>

theorem forward_batch_size:
  "(ndimension C = 4 \<longrightarrow>
      infer_n_batch m C = Inr (size_dim C 1)
      \<and> forward m e C c dynamics = forward_with m e (size_dim C 1) C c dynamics)
   \<and> (ndimension C \<noteq> 4 \<and> self_n_batch m = Some n \<longrightarrow>
      infer_n_batch m C = Inr n
      \<and> forward m e C c dynamics = forward_with m e n C c dynamics)
   \<and> (ndimension C \<noteq> 4 \<and> self_n_batch m = None \<longrightarrow>
      forward m e C c dynamics
        = Inl (AssertionError (Some ''Could not infer batch size, pass in as n_batch'')))"
  by (simp add: forward_def infer_n_batch_def)

theorem forward_batch_size_witness:
  "infer_n_batch mpc_loop C_ex = Inr 2
   \<and> forward mpc_loop toy_env C_ex c_ex None = forward_with mpc_loop toy_env 2 C_ex c_ex None
   \<and> forward (mpc_loop\<lparr>self_n_batch := Some 2\<rparr>) toy_env C3_ex c_ex None
       = forward_with (mpc_loop\<lparr>self_n_batch := Some 2\<rparr>) toy_env 2 C3_ex c_ex None
   \<and> forward mpc_loop toy_env C3_ex c_ex None
       = Inl (AssertionError (Some ''Could not infer batch size, pass in as n_batch''))"
  using forward_batch_size [of C_ex mpc_loop toy_env c_ex None 2]
    forward_batch_size [of C3_ex "mpc_loop\<lparr>self_n_batch := Some 2\<rparr>" toy_env c_ex None 2]
    forward_batch_size [of C3_ex mpc_loop toy_env c_ex None 2]
  by (simp add: ndimension_def size_dim_def C_ex_def C3_ex_def mpc_loop_def mpc_example_def)

section \<open>Tracking the best trajectory\<close>

lemma index_check_Inr [simp]: "index_check b = Inr v \<longleftrightarrow> b"
  by (simp add: index_check_def)

lemma update_best_j_cases:
  assumes "update_best_j m x u fo j (b, n) = Inr (b', n')"
  shows "j < length (costs fo) \<and> j < length (best_costs b)
    \<and> (if improves m fo b j
        then n' = 0
          \<and> b' = b\<lparr> best_x := (best_x b)[j := map (\<lambda>xt. [xt ! j]) x],
                    best_u := (best_u b)[j := map (\<lambda>ut. [ut ! j]) u],
                    best_costs := (best_costs b)[j := costs fo ! j],
                    best_full_du_norm := (best_full_du_norm b)[j := full_du_norm fo ! j] \<rparr>
          \<and> j < length (best_x b) \<and> j < length (best_u b)
          \<and> j < length (full_du_norm fo) \<and> j < length (best_full_du_norm b)
        else n' = n \<and> b' = b)"
  using assms
  by (auto simp: update_best_j_def bindE_eq_Inr select_batch_def split: if_splits)

lemma update_best_j_step:
  assumes "update_best_j m x u fo j (b, n) = Inr (b', n')"
  shows "same_sizes b b'"
    and "improves m fo b j \<Longrightarrow> adopted x u fo b' j \<and> n' = 0"
    and "\<not> improves m fo b j \<Longrightarrow> b' = b \<and> n' = n"
    and "i \<noteq> j \<Longrightarrow> kept b b' i"
  using update_best_j_cases [OF assms]
  by (auto simp: same_sizes_def adopted_def kept_def split: if_splits)

lemma improves_kept: "kept b b' j \<Longrightarrow> improves m fo b' j = improves m fo b j"
  by (simp add: improves_def kept_def)

lemma foldE_update_best:
  assumes "foldE (update_best_j m x u fo) js (b, n) = Inr (b', n')" and "distinct js"
  shows "same_sizes b b'
    \<and> (\<forall>j \<in> set js. if improves m fo b j then adopted x u fo b' j else kept b b' j)
    \<and> (\<forall>j. j \<notin> set js \<longrightarrow> kept b b' j)
    \<and> n' = (if \<exists>j \<in> set js. improves m fo b j then 0 else n)"
  using assms
proof (induction js arbitrary: b n)
  case Nil
  then show ?case by (simp add: same_sizes_def kept_def)
next
  case (Cons a js)
  from Cons.prems(1) obtain b1 n1 where
    step: "update_best_j m x u fo a (b, n) = Inr (b1, n1)"
    and rest: "foldE (update_best_j m x u fo) js (b1, n1) = Inr (b', n')"
    by (auto simp: bindE_eq_Inr)
  from Cons.prems(2) have dist: "distinct js" and a_new: "a \<notin> set js" by simp_all
  note IH = Cons.IH [OF rest dist]
  note S = update_best_j_step [OF step]
  have k1: "kept b b1 j" if "j \<noteq> a" for j using S(4) that by blast
  have ka: "kept b1 b' a" using IH a_new by blast
  have sizes: "same_sizes b b'" using S(1) IH by (simp add: same_sizes_def)
  have inl: "if improves m fo b j then adopted x u fo b' j else kept b b' j"
    if "j \<in> set (a # js)" for j
  proof (cases "j = a")
    case True
    show ?thesis
    proof (cases "improves m fo b a")
      case True
      with S(2) ka \<open>j = a\<close> show ?thesis by (auto simp: adopted_def kept_def)
    next
      case False
      with S(3) ka \<open>j = a\<close> show ?thesis by auto
    qed
  next
    case False
    with that have "j \<in> set js" by simp
    with IH have "if improves m fo b1 j then adopted x u fo b' j else kept b1 b' j" by blast
    moreover have "improves m fo b1 j = improves m fo b j"
      using k1 [OF False] by (rule improves_kept)
    ultimately show ?thesis using k1 [OF False] by (auto simp: kept_def)
  qed
  have out: "kept b b' j" if "j \<notin> set (a # js)" for j
  proof -
    from that have "j \<noteq> a" "j \<notin> set js" by simp_all
    with k1 IH have "kept b b1 j" "kept b1 b' j" by blast+
    then show ?thesis by (simp add: kept_def)
  qed
  have same: "(\<exists>j \<in> set js. improves m fo b1 j) = (\<exists>j \<in> set js. improves m fo b j)"
    using k1 a_new improves_kept by (metis)
  have cnt: "n' = (if \<exists>j \<in> set (a # js). improves m fo b j then 0 else n)"
  proof (cases "improves m fo b a")
    case True
    with S(2) have "n1 = 0" by simp
    with IH True show ?thesis by auto
  next
    case False
    with S(3) have "n1 = n" by simp
    with IH False same show ?thesis by auto
  qed
  from sizes inl out cnt show ?case by blast
qed

lemma track_best_first:
  "track_best m n_batch x u fo (None, n) =
     Inr (\<lparr> best_x = split_batch x, best_u = split_batch u, best_costs = costs fo,
            best_full_du_norm = full_du_norm fo \<rparr>, n)"
  by (simp add: track_best_def)

lemma track_best_later:
  assumes "track_best m n_batch x u fo (Some b, n) = Inr (b', n')"
  shows "same_sizes b b'
    \<and> (\<forall>j<n_batch. if improves m fo b j then adopted x u fo b' j else kept b b' j)
    \<and> (\<forall>j. n_batch \<le> j \<longrightarrow> kept b b' j)
    \<and> n' = (if \<exists>j<n_batch. improves m fo b j then 0 else n)"
proof -
  from assms have "foldE (update_best_j m x u fo) [0..<n_batch] (b, n) = Inr (b', n')"
    by (simp add: track_best_def)
  from foldE_update_best [OF this] show ?thesis by (simp add: Bex_def)
qed

lemma lqr_iteration_parts:
  assumes "lqr_iteration m e n_batch C c dynamics st = Inr st'"
  shows "\<exists>x u fo b. track_best m n_batch x u fo (st_best st, st_n_not_improved st + 1)
             = Inr (b, st_n_not_improved st')
           \<and> st_best st' = Some b \<and> st_for_out st' = Some fo \<and> st_u st' = u
           \<and> st_iter st' = st_iter st + 1"
  using assms
  by (fastforce simp: lqr_iteration_def bindE_eq_Inr Let_def split: prod.splits)

lemma lqr_iteration_solve:
  assumes "lqr_iteration m e n_batch C c dynamics st = Inr st'"
  shows "\<exists>x0 F f x u r b.
      current_trajectory m e dynamics st = Inr (x0, F, f)
    \<and> solve_lqr_subproblem m e (self_x_init m) C c F f dynamics x0 (st_u st) False
        = Inr (x, u, r)
    \<and> track_best m n_batch x u (ret_for_out r) (st_best st, st_n_not_improved st + 1)
        = Inr (b, st_n_not_improved st')
    \<and> st_best st' = Some b \<and> st_for_out st' = Some (ret_for_out r) \<and> st_u st' = u"
  using assms
  by (fastforce simp: lqr_iteration_def bindE_eq_Inr Let_def split: prod.splits)

text \<open>
  C2, as the code has it. Every outer iteration solves one LQR subproblem around the
  trajectory of the current controls; \<open>x\<close>, \<open>u\<close> and \<open>fo\<close> below are what that call
  returned, and \<open>u\<close> becomes the current control sequence. In the first iteration this
  result becomes the record as a whole. In every later iteration and for each batch element
  \<open>j\<close> on its own, the element's entry is replaced by the new trajectory, cost and step norm
  when the new cost is lower than the recorded one by at least \<open>best_cost_eps\<close>, and is left
  as it was otherwise. There is one counter \<open>n_not_improved\<close> for the whole batch: every
  iteration adds one to it, and an iteration in which at least one element was replaced
  sets it to zero.
\<close>

theorem track_best_shared_counter:
  assumes "lqr_iteration m e n_batch C c dynamics st = Inr st'"
  shows "\<exists>x0 F f x u r fo b'.
      current_trajectory m e dynamics st = Inr (x0, F, f)
    \<and> solve_lqr_subproblem m e (self_x_init m) C c F f dynamics x0 (st_u st) False
        = Inr (x, u, r)
    \<and> fo = ret_for_out r \<and> st_u st' = u
    \<and> st_best st' = Some b' \<and> st_for_out st' = Some fo
    \<and> (case st_best st of
         None \<Rightarrow>
           b' = \<lparr> best_x = split_batch x, best_u = split_batch u, best_costs = costs fo,
                  best_full_du_norm = full_du_norm fo \<rparr>
           \<and> st_n_not_improved st' = st_n_not_improved st + 1
       | Some b \<Rightarrow>
           (\<forall>j<n_batch. if costs fo ! j \<le> best_costs b ! j - self_best_cost_eps m
                        then adopted x u fo b' j else kept b b' j)
           \<and> st_n_not_improved st' =
               (if \<exists>j<n_batch. costs fo ! j \<le> best_costs b ! j - self_best_cost_eps m
                then 0 else st_n_not_improved st + 1))"
proof -
  from lqr_iteration_solve [OF assms] obtain x0 F f x u r b' where
    traj: "current_trajectory m e dynamics st = Inr (x0, F, f)"
    and solve: "solve_lqr_subproblem m e (self_x_init m) C c F f dynamics x0 (st_u st) False
        = Inr (x, u, r)"
    and tb: "track_best m n_batch x u (ret_for_out r) (st_best st, st_n_not_improved st + 1)
           = Inr (b', st_n_not_improved st')"
    and b': "st_best st' = Some b'" and fo: "st_for_out st' = Some (ret_for_out r)"
    and u: "st_u st' = u"
    by blast
  let ?fo = "ret_for_out r"
  have "case st_best st of
         None \<Rightarrow>
           b' = \<lparr> best_x = split_batch x, best_u = split_batch u, best_costs = costs ?fo,
                  best_full_du_norm = full_du_norm ?fo \<rparr>
           \<and> st_n_not_improved st' = st_n_not_improved st + 1
       | Some b \<Rightarrow>
           (\<forall>j<n_batch. if costs ?fo ! j \<le> best_costs b ! j - self_best_cost_eps m
                        then adopted x u ?fo b' j else kept b b' j)
           \<and> st_n_not_improved st' =
               (if \<exists>j<n_batch. costs ?fo ! j \<le> best_costs b ! j - self_best_cost_eps m
                then 0 else st_n_not_improved st + 1)"
  proof (cases "st_best st")
    case None
    with tb show ?thesis by (auto simp: track_best_first)
  next
    case (Some b)
    with tb have "track_best m n_batch x u ?fo (Some b, st_n_not_improved st + 1)
           = Inr (b', st_n_not_improved st')" by simp
    from track_best_later [OF this] Some show ?thesis
      by (simp add: improves_def)
  qed
  with traj solve b' fo u show ?thesis
    by (intro exI [of _ x0] exI [of _ F] exI [of _ f] exI [of _ x] exI [of _ u] exI [of _ r]
        exI [of _ ?fo] exI [of _ b']) simp
qed

lemmas run_defs = toy_lqr_def toy_env_def mpc_loop_def mpc_example_def C_ex_def c_ex_def
  st0_def st1_def lqr_iteration_def current_trajectory_def solve_lqr_subproblem_def solve_args_def track_best_def
  update_best_j_def improves_def select_batch_def split_batch_def size1_def exit_test_def
  py_max_def index_check_def Let_def eval_nat_numeral

theorem track_best_shared_counter_witness:
  "lqr_iteration mpc_loop toy_env 2 C_ex c_ex None st0 = Inr st1
   \<and> (\<exists>s x u r b'. lqr_iteration mpc_loop toy_env 2 C_ex c_ex None st1 = Inr s
        \<and> solve_lqr_subproblem mpc_loop toy_env [[0], [0]] C_ex c_ex None None None
             [[[0], [0]], [[0], [0]]] [[[1 / 2], [2]], [[1 / 2], [2]]] False = Inr (x, u, r)
        \<and> u = [[[1 / 4], [1]], [[1 / 4], [1]]] \<and> st_u s = u
        \<and> st_best s = Some b' \<and> best_u b' = [[[[1 / 4]], [[1 / 4]]], [[[1]], [[1]]]]
        \<and> best_costs b' = [1 / 4, 1] \<and> st_n_not_improved s = 0)"
proof -
  have one: "lqr_iteration mpc_loop toy_env 2 C_ex c_ex None st0 = Inr st1"
    by (simp add: run_defs)
  obtain s where two: "lqr_iteration mpc_loop toy_env 2 C_ex c_ex None st1 = Inr s"
    and vals: "st_best s = Some \<lparr> best_x = [[[[0]], [[0]]], [[[0]], [[0]]]],
                      best_u = [[[[1 / 4]], [[1 / 4]]], [[[1]], [[1]]]],
                      best_costs = [1 / 4, 1], best_full_du_norm = [1 / 4, 1] \<rparr>"
    by (simp add: run_defs)
  have traj: "current_trajectory mpc_loop toy_env None st1
      = Inr ([[[0], [0]], [[0], [0]]], None, None)"
    by (simp add: run_defs)
  have solve: "solve_lqr_subproblem mpc_loop toy_env [[0], [0]] C_ex c_ex None None None
             [[[0], [0]], [[0], [0]]] [[[1 / 2], [2]], [[1 / 2], [2]]] False
      = Inr ([[[0], [0]], [[0], [0]]], [[[1 / 4], [1]], [[1 / 4], [1]]],
          \<lparr> ret_x = [[[0], [0]], [[0], [0]]], ret_u = [[[1 / 4], [1]], [[1 / 4], [1]]],
            ret_for_out = \<lparr> costs = [1 / 4, 1], full_du_norm = [1 / 4, 1] \<rparr> \<rparr>)"
    by (simp add: run_defs)
  have x_init: "self_x_init mpc_loop = [[0], [0]]"
    and u1: "st_u st1 = [[[1 / 2], [2]], [[1 / 2], [2]]]"
    and b1: "st_best st1 = Some \<lparr> best_x = [[[[0]], [[0]]], [[[0]], [[0]]]],
                      best_u = [[[[1 / 2]], [[1 / 2]]], [[[2]], [[2]]]],
                      best_costs = [1 / 2, 2], best_full_du_norm = [1 / 2, 2] \<rparr>"
    by (simp_all add: mpc_loop_def mpc_example_def st1_def)
  from track_best_shared_counter [OF two] traj solve x_init u1 b1
  have u: "st_u s = [[[1 / 4], [1]], [[1 / 4], [1]]]"
    and cnt: "st_n_not_improved s =
       (if \<exists>j<2. [1 / 4, 1 :: real] ! j \<le> [1 / 2, 2 :: real] ! j - self_best_cost_eps mpc_loop
        then 0 else st_n_not_improved st1 + 1)"
    by auto
  have "\<exists>j<2. [1 / 4, 1 :: real] ! j \<le> [1 / 2, 2 :: real] ! j - self_best_cost_eps mpc_loop"
    by (rule exI [of _ 0]) (simp add: mpc_loop_def mpc_example_def)
  with cnt have "st_n_not_improved s = 0" by simp
  with one two vals solve u show ?thesis by simp
qed

text \<open>
  C2 as stated does not hold: the counter is not kept per element. With two elements, a
  counter of 2 before the iteration (3 after line 210), recorded costs 9 and 16 and new
  costs 1 and 16, element 1 does not improve, and the counter is 0 after the iteration,
  not 3.
\<close>

theorem per_element_counter_counterexample:
  "track_best mpc_example 2 [[[0], [0]], [[0], [0]]] [[[5], [6]], [[5], [6]]] fo_new
       (Some b_cx, 2 + 1)
     = Inr (\<lparr> best_x = [[[[0]], [[0]]], [[[0]], [[0]]]],
              best_u = [[[[5]], [[5]]], [[[4]], [[4]]]],
              best_costs = [1, 16], best_full_du_norm = [1 / 2, 1] \<rparr>, 0)
   \<and> \<not> improves mpc_example fo_new b_cx 1"
  by (simp add: track_best_def update_best_j_def improves_def select_batch_def
      index_check_def mpc_example_def b_cx_def fo_new_def eval_nat_numeral)

lemma kept_or_lower:
  assumes "track_best m n_batch x u fo (Some b, n) = Inr (b', n')"
  shows "length (best_costs b') = length (best_costs b)
    \<and> (\<forall>j. best_costs b' ! j = best_costs b ! j
          \<or> best_costs b' ! j \<le> best_costs b ! j - self_best_cost_eps m)"
proof -
  note T = track_best_later [OF assms]
  have "best_costs b' ! j = best_costs b ! j
          \<or> best_costs b' ! j \<le> best_costs b ! j - self_best_cost_eps m" for j
  proof (cases "j < n_batch")
    case True
    with T have "if improves m fo b j then adopted x u fo b' j else kept b b' j" by blast
    then show ?thesis by (auto simp: improves_def adopted_def kept_def split: if_splits)
  next
    case False
    with T have "kept b b' j" by simp
    then show ?thesis by (simp add: kept_def)
  qed
  with T show ?thesis by (simp add: same_sizes_def)
qed

lemma iteration_kept_or_lower:
  assumes "lqr_iteration m e n_batch C c dynamics st = Inr st'" and "st_best st = Some b"
  shows "\<exists>b'. st_best st' = Some b' \<and> length (best_costs b') = length (best_costs b)
    \<and> (\<forall>j. best_costs b' ! j = best_costs b ! j
          \<or> best_costs b' ! j \<le> best_costs b ! j - self_best_cost_eps m)"
  using lqr_iteration_parts [OF assms(1)] assms(2) kept_or_lower by fastforce

lemma iterations_kept_or_lower:
  assumes "0 \<le> self_best_cost_eps m"
    and "iterations m e n_batch C c dynamics k st = Inr st'"
    and "st_best st = Some b"
  shows "\<exists>b'. st_best st' = Some b' \<and> length (best_costs b') = length (best_costs b)
    \<and> (\<forall>j. best_costs b' ! j = best_costs b ! j
          \<or> best_costs b' ! j \<le> best_costs b ! j - self_best_cost_eps m)"
  using assms(2,3)
proof (induction k arbitrary: st b)
  case 0
  then show ?case by simp
next
  case (Suc k)
  from Suc.prems(1) obtain st1 where
    one: "lqr_iteration m e n_batch C c dynamics st = Inr st1"
    and rest: "iterations m e n_batch C c dynamics k st1 = Inr st'"
    by (auto simp: bindE_eq_Inr)
  from iteration_kept_or_lower [OF one Suc.prems(2)] obtain b1 where
    b1: "st_best st1 = Some b1" "length (best_costs b1) = length (best_costs b)"
    and s1: "\<And>j. best_costs b1 ! j = best_costs b ! j
          \<or> best_costs b1 ! j \<le> best_costs b ! j - self_best_cost_eps m"
    by blast
  from Suc.IH [OF rest b1(1)] obtain b' where
    b': "st_best st' = Some b'" "length (best_costs b') = length (best_costs b1)"
    and s2: "\<And>j. best_costs b' ! j = best_costs b1 ! j
          \<or> best_costs b' ! j \<le> best_costs b1 ! j - self_best_cost_eps m"
    by blast
  have "best_costs b' ! j = best_costs b ! j
          \<or> best_costs b' ! j \<le> best_costs b ! j - self_best_cost_eps m" for j
    using s1 [of j] s2 [of j] assms(1) by linarith
  with b' b1 show ?case by simp
qed

text \<open>
  C4. For a margin \<open>best_cost_eps\<close> that is not negative, the cost recorded for a batch
  element never rises over any number of further outer iterations: after them the entry
  is what it was or lower by at least \<open>best_cost_eps\<close>, hence strictly lower for a positive
  margin.
\<close>

theorem best_cost_monotone:
  assumes "0 \<le> self_best_cost_eps m"
    and "iterations m e n_batch C c dynamics k st = Inr st'"
    and "st_best st = Some b"
  shows "\<exists>b'. st_best st' = Some b' \<and> length (best_costs b') = length (best_costs b)
    \<and> (\<forall>j. best_costs b' ! j \<le> best_costs b ! j
          \<and> (best_costs b' ! j = best_costs b ! j
              \<or> best_costs b' ! j \<le> best_costs b ! j - self_best_cost_eps m)
          \<and> (0 < self_best_cost_eps m \<longrightarrow>
                best_costs b' ! j = best_costs b ! j \<or> best_costs b' ! j < best_costs b ! j))"
proof -
  from iterations_kept_or_lower [OF assms] obtain b' where
    b': "st_best st' = Some b'" "length (best_costs b') = length (best_costs b)"
    and step: "\<And>j. best_costs b' ! j = best_costs b ! j
          \<or> best_costs b' ! j \<le> best_costs b ! j - self_best_cost_eps m"
    by blast
  have "best_costs b' ! j \<le> best_costs b ! j
      \<and> (best_costs b' ! j = best_costs b ! j
          \<or> best_costs b' ! j \<le> best_costs b ! j - self_best_cost_eps m)
      \<and> (0 < self_best_cost_eps m \<longrightarrow>
            best_costs b' ! j = best_costs b ! j \<or> best_costs b' ! j < best_costs b ! j)" for j
    using step [of j] assms(1) by linarith
  with b' show ?thesis by blast
qed

theorem best_cost_monotone_witness:
  "0 \<le> self_best_cost_eps mpc_loop
   \<and> (\<exists>s b'. iterations mpc_loop toy_env 2 C_ex c_ex None 3 st1 = Inr s
        \<and> st_best s = Some b' \<and> best_costs b' = [1 / 16, 1 / 4]
        \<and> best_costs b' ! 0 \<le> 1 / 2 \<and> best_costs b' ! 1 \<le> 2)"
proof -
  have eps: "0 \<le> self_best_cost_eps mpc_loop"
    by (simp add: mpc_loop_def mpc_example_def)
  obtain s where run: "iterations mpc_loop toy_env 2 C_ex c_ex None 3 st1 = Inr s"
    and vals: "st_best s = Some \<lparr> best_x = [[[[0]], [[0]]], [[[0]], [[0]]]],
                      best_u = [[[[1 / 16]], [[1 / 16]]], [[[1 / 4]], [[1 / 4]]]],
                      best_costs = [1 / 16, 1 / 4], best_full_du_norm = [1 / 16, 1 / 4] \<rparr>"
    by (simp add: run_defs)
  have b1: "st_best st1 = Some \<lparr> best_x = [[[[0]], [[0]]], [[[0]], [[0]]]],
                      best_u = [[[[1 / 2]], [[1 / 2]]], [[[2]], [[2]]]],
                      best_costs = [1 / 2, 2], best_full_du_norm = [1 / 2, 2] \<rparr>"
    by (simp add: st1_def)
  from best_cost_monotone [OF eps run b1] obtain b' where
    b': "st_best s = Some b'"
    and le: "\<And>j. best_costs b' ! j \<le> [1 / 2, 2 :: real] ! j"
    by auto
  from le [of 0] le [of 1] have "best_costs b' ! 0 \<le> 1 / 2 \<and> best_costs b' ! 1 \<le> 2"
    by simp
  with eps run vals b' show ?thesis by auto
qed

section \<open>The outer loop\<close>

lemma lqr_loop_run:
  assumes "lqr_loop m e n_batch C c dynamics n st = Inr st'"
  shows "\<exists>k\<le>n. st_iter st' = st_iter st + k
    \<and> iterations m e n_batch C c dynamics k st = Inr st'
    \<and> (\<forall>i. 0 < i \<and> i < k \<longrightarrow>
          (\<exists>s. iterations m e n_batch C c dynamics i st = Inr s \<and> exit_test m s = Inr False))
    \<and> (k < n \<longrightarrow> 0 < k \<and> exit_test m st' = Inr True)"
  using assms
proof (induction n arbitrary: st)
  case 0
  then show ?case by simp
next
  case (Suc n)
  from Suc.prems obtain st1 stop where
    one: "lqr_iteration m e n_batch C c dynamics st = Inr st1"
    and test: "exit_test m st1 = Inr stop"
    and rest: "if stop then st' = st1 else lqr_loop m e n_batch C c dynamics n st1 = Inr st'"
    by (auto simp: bindE_eq_Inr split: if_splits)
  from lqr_iteration_parts [OF one] have it1: "st_iter st1 = st_iter st + 1" by blast
  show ?case
  proof (cases stop)
    case True
    with rest one test it1 show ?thesis
      by (intro exI [of _ 1]) simp
  next
    case False
    with rest have "lqr_loop m e n_batch C c dynamics n st1 = Inr st'" by simp
    from Suc.IH [OF this] obtain k where k: "k \<le> n" "st_iter st' = st_iter st1 + k"
      "iterations m e n_batch C c dynamics k st1 = Inr st'"
      and mid: "\<And>i. 0 < i \<Longrightarrow> i < k \<Longrightarrow>
          \<exists>s. iterations m e n_batch C c dynamics i st1 = Inr s \<and> exit_test m s = Inr False"
      and last: "k < n \<Longrightarrow> 0 < k \<and> exit_test m st' = Inr True"
      by blast
    have mid': "\<exists>s. iterations m e n_batch C c dynamics i st = Inr s \<and> exit_test m s = Inr False"
      if "0 < i" "i < Suc k" for i
    proof (cases i)
      case 0
      with that show ?thesis by simp
    next
      case (Suc i')
      show ?thesis
      proof (cases "i' = 0")
        case True
        with Suc one test False show ?thesis by simp
      next
        case F: False
        with that Suc have "0 < i'" "i' < k" by simp_all
        from mid [OF this] Suc one show ?thesis by simp
      qed
    qed
    have "k = 0 \<Longrightarrow> st' = st1" using k(3) by simp
    then have last': "Suc k < Suc n \<longrightarrow> 0 < Suc k \<and> exit_test m st' = Inr True"
      using last by auto
    from k it1 one mid' last' show ?thesis
      by (intro exI [of _ "Suc k"]) simp
  qed
qed

lemma py_max_Inr: "py_max xs = Inr mx \<longleftrightarrow> xs \<noteq> [] \<and> mx = Max (set xs)"
proof (cases xs)
  case Nil
  then show ?thesis by (simp add: py_max_def)
next
  case (Cons y ys)
  have "fold max ys y = Max (set (y # ys))" by (rule Max.set_eq_fold [symmetric])
  with Cons show ?thesis by (auto simp: py_max_def)
qed

lemma exit_test_Inr:
  assumes "exit_test m s = Inr stop"
  shows "\<exists>fo. st_for_out s = Some fo \<and> full_du_norm fo \<noteq> []
    \<and> (stop \<longleftrightarrow> Max (set (full_du_norm fo)) < self_eps m
                  \<or> st_n_not_improved s > self_not_improved_lim m)"
  using assms
  by (auto simp: exit_test_def bindE_eq_Inr py_max_Inr split: option.splits)

text \<open>
  C7. The loop runs at most \<open>lqr_iter\<close> iterations (\<open>n\<close> below is the length of
  \<^verbatim>\<open>range(self.lqr_iter)\<close>). It goes on after an iteration exactly when the test of lines
  243 and 244 is false: every iteration before the last one left the test false, and a
  loop that stops before the \<open>n\<close>-th iteration stops on a true test. The test is true
  exactly when the largest full control-step norm of the current iterate is below \<open>eps\<close> or
  the counter \<open>n_not_improved\<close> exceeds \<open>not_improved_lim\<close>.
\<close>

theorem lqr_loop_iterations:
  assumes "lqr_loop m e n_batch C c dynamics n st = Inr st'" and "st_iter st = 0"
  shows "st_iter st' \<le> n
    \<and> iterations m e n_batch C c dynamics (st_iter st') st = Inr st'
    \<and> (\<forall>i. 0 < i \<and> i < st_iter st' \<longrightarrow>
          (\<exists>s. iterations m e n_batch C c dynamics i st = Inr s \<and> exit_test m s = Inr False))
    \<and> (st_iter st' < n \<longrightarrow> 0 < st_iter st' \<and> exit_test m st' = Inr True)
    \<and> (\<forall>s stop. exit_test m s = Inr stop \<longrightarrow>
          (\<exists>fo. st_for_out s = Some fo \<and> full_du_norm fo \<noteq> []
             \<and> (stop \<longleftrightarrow> Max (set (full_du_norm fo)) < self_eps m
                           \<or> st_n_not_improved s > self_not_improved_lim m)))"
  using lqr_loop_run [OF assms(1)] assms(2) exit_test_Inr by auto

theorem lqr_loop_iterations_witness:
  "\<exists>s. lqr_loop mpc_loop toy_env 2 C_ex c_ex None (nat (self_lqr_iter mpc_loop)) st0 = Inr s
     \<and> st_iter s = 5 \<and> st_iter s \<le> nat (self_lqr_iter mpc_loop)
     \<and> iterations mpc_loop toy_env 2 C_ex c_ex None 5 st0 = Inr s
     \<and> exit_test mpc_loop s = Inr True"
proof -
  obtain s where
    run: "lqr_loop mpc_loop toy_env 2 C_ex c_ex None (nat (self_lqr_iter mpc_loop)) st0 = Inr s"
    and five: "st_iter s = 5"
    by (simp add: run_defs)
  have zero: "st_iter st0 = 0" by (simp add: st0_def)
  have "st_iter s < nat (self_lqr_iter mpc_loop)"
    using five by (simp add: mpc_loop_def mpc_example_def)
  with lqr_loop_iterations [OF run zero] five run show ?thesis by auto
qed

section \<open>Unconverged batch elements\<close>

lemma map2_const_row: "map2 F row (map (\<lambda>_. k) row) = map (\<lambda>v. F v k) row"
  by (induction row) simp_all

lemma map2_upt: "map2 F xs (map G [0..<length xs]) = map (\<lambda>j. F (xs ! j) (G j)) [0..<length xs]"
  by (rule nth_equalityI) simp_all

lemma map2_same: "map2 F xs (map G xs) = map (\<lambda>a. F a (G a)) xs"
  by (induction xs) simp_all

lemma mix_value: "dadd (dmul (var v) i) (dmul (detach (var v)) (1 - i)) = (v, i)"
  by (simp add: dadd_def dmul_def var_def detach_def algebra_simps)

text \<open>
  C3 fails on the code, at two inputs. Under the step \<open>reflect_lqr\<close> the loop ends after six
  iterations with the recorded step norms 2 and 1, those of the first iteration, which no
  later one improved on, and with the last iterate's step norms 1 and 2.

  With \<open>eps = 3/2\<close> and \<open>exit_unconverged\<close> off, the solver prints the warning and returns
  element 0 attached (derivative 1), although its recorded norm 2 exceeds \<open>eps\<close>, and
  element 1 detached (derivative 0), although its recorded norm 1 is below \<open>eps\<close>: line 266
  builds the mask from the norms of the last iterate, while line 258 tests the recorded
  ones, which line 249 reads into a variable that is never used.

  With \<open>eps = 1/2\<close>, \<open>exit_unconverged\<close> on and \<open>detach_unconverged\<close> off, the solver returns
  every element attached and prints nothing, although both recorded norms exceed \<open>eps\<close>: the
  assertion of line 260 sits under \<^verbatim>\<open>if self.detach_unconverged\<close>, while the docstring of
  the class says of \<open>exit_unconverged\<close>: assert False if a fixed point is not reached.
  With \<open>detach_unconverged\<close> on, the same input fails with that assertion.
\<close>

theorem unconverged_elements_failing_input:
  "MPC_init mpc_reflect = Inr mpc_reflect
   \<and> lqr_loop mpc_reflect (toy_env\<lparr>LQRStep := reflect_lqr\<rparr>) 2 C_ex c_ex None 10
        \<lparr> st_iter = 0, st_u = [[[1], [2]], [[1], [2]]], st_F = None, st_f = None,
          st_best = None, st_for_out = None, st_n_not_improved = 0 \<rparr>
      = Inr \<lparr> st_iter = 6, st_u = [[[1], [2]], [[1], [2]]], st_F = None, st_f = None,
          st_best = Some \<lparr> best_x = [[[[0]], [[0]]], [[[0]], [[0]]]],
                           best_u = [[[[2]], [[2]]], [[[1]], [[1]]]],
                           best_costs = [0, 0], best_full_du_norm = [2, 1] \<rparr>,
          st_for_out = Some \<lparr> costs = [0, 0], full_du_norm = [1, 2] \<rparr>,
          st_n_not_improved = 6 \<rparr>
   \<and> forward mpc_reflect (toy_env\<lparr>LQRStep := reflect_lqr\<rparr>) C_ex c_ex None
      = Inr \<lparr> sol_x = [[[(0, 1)], [(0, 0)]], [[(0, 1)], [(0, 0)]]],
               sol_u = [[[(1, 1)], [(2, 0)]], [[(1, 1)], [(2, 0)]]],
               sol_costs = [0, 0], sol_printed = lqr_warning \<rparr>
   \<and> forward (mpc_reflect\<lparr> self_eps := 1 / 2, self_exit_unconverged := True,
                 self_detach_unconverged := False \<rparr>)
        (toy_env\<lparr>LQRStep := reflect_lqr\<rparr>) C_ex c_ex None
      = Inr \<lparr> sol_x = [[[(0, 1)], [(0, 1)]], [[(0, 1)], [(0, 1)]]],
               sol_u = [[[(1, 1)], [(2, 1)]], [[(1, 1)], [(2, 1)]]],
               sol_costs = [0, 0], sol_printed = [] \<rparr>
   \<and> forward (mpc_reflect\<lparr> self_eps := 1 / 2, self_exit_unconverged := True \<rparr>)
        (toy_env\<lparr>LQRStep := reflect_lqr\<rparr>) C_ex c_ex None
      = Inl (AssertionError None)"
  by code_simp

section \<open>The residual of the linearization\<close>

lemma mapE_Inr:
  "mapE g as = Inr bs \<Longrightarrow> length bs = length as \<and> (\<forall>i<length as. g (as ! i) = Inr (bs ! i))"
proof (induction as arbitrary: bs)
  case Nil
  then show ?case by simp
next
  case (Cons a as)
  from Cons.prems obtain b bs' where b: "g a = Inr b" and r: "mapE g as = Inr bs'"
    and bs: "bs = b # bs'"
    by (auto simp: bindE_eq_Inr)
  from Cons.IH [OF r] b bs show ?case by (auto simp: nth_Cons split: nat.splits)
qed

lemma zipE_Inr:
  "zipE g as bs = Inr cs \<Longrightarrow>
     length bs = length as \<and> length cs = length as
     \<and> (\<forall>i<length as. g (as ! i) (bs ! i) = Inr (cs ! i))"
proof (induction g as bs arbitrary: cs rule: zipE.induct)
  case (1 g)
  then show ?case by simp
next
  case (2 g a as b bs)
  from "2.prems" obtain c cs' where c: "g a b = Inr c" and r: "zipE g as bs = Inr cs'"
    and cs: "cs = c # cs'"
    by (auto simp: bindE_eq_Inr)
  from "2.IH" [OF r] c cs show ?case by (auto simp: nth_Cons split: nat.splits)
next
  case (3 g b bs)
  then show ?case by simp
next
  case (4 g a as)
  then show ?case by simp
qed

lemma appendE_rows:
  assumes "zipE appendE R S = Inr M"
  shows "length S = length R \<and> M = map2 (@) R S"
proof -
  from zipE_Inr [OF assms] have l: "length S = length R" "length M = length R"
    and e: "\<And>i. i < length R \<Longrightarrow> M ! i = R ! i @ S ! i"
    by (auto simp: appendE_def)
  have "M = map2 (@) R S"
    by (rule nth_equalityI) (use l e in auto)
  with l show ?thesis by simp
qed

lemma sub_rows:
  assumes "zipE (\<lambda>a b. Inr (a - b)) r s = Inr d"
  shows "length s = length r \<and> d = vsub r (s :: real list)"
proof -
  from zipE_Inr [OF assms] have l: "length s = length r" "length d = length r"
    and e: "\<And>i. i < length r \<Longrightarrow> d ! i = r ! i - s ! i"
    by auto
  have "d = map2 (-) r s"
    by (rule nth_equalityI) (use l e in auto)
  with l show ?thesis by (simp add: vsub_def)
qed

lemma subE_Inr:
  assumes "subE A B = Inr D"
  shows "length B = length A \<and> length D = length A
    \<and> (\<forall>i<length A. length (B ! i) = length (A ! i) \<and> D ! i = vsub (A ! i) (B ! i))"
  using zipE_Inr [OF assms [unfolded subE_def]] sub_rows by metis

lemma mvE_Inr:
  assumes "mvE M v = Inr w"
  shows "w = mv M v \<and> (\<forall>r \<in> set M. length r = length v)"
proof -
  from mapE_Inr [OF assms [unfolded mvE_def]] have l: "length w = length M"
    and e: "\<And>i. i < length M \<Longrightarrow>
        (if length (M ! i) = length v then Inr (dot (M ! i) v) else Inl RuntimeError) = Inr (w ! i)"
    by auto
  have rows: "length (M ! i) = length v \<and> w ! i = dot (M ! i) v" if "i < length M" for i
    using e [OF that] by (auto split: if_splits)
  have "w = mv M v"
    unfolding mv_def by (rule nth_equalityI) (use l rows in auto)
  moreover have "\<forall>r \<in> set M. length r = length v"
    using rows by (auto simp: in_set_conv_nth)
  ultimately show ?thesis by simp
qed

lemma bmv_Inr:
  assumes "bmv Ms vs = Inr ws"
  shows "length vs = length Ms \<and> length ws = length Ms
    \<and> (\<forall>i<length Ms. ws ! i = mv (Ms ! i) (vs ! i)
          \<and> (\<forall>r \<in> set (Ms ! i). length r = length (vs ! i)))"
  using zipE_Inr [OF assms [unfolded bmv_def]] mvE_Inr by metis

lemma cat3_2_Inr:
  assumes "cat3_2 R S = Inr Ft"
  shows "length S = length R \<and> length Ft = length R
    \<and> (\<forall>i<length R. length (S ! i) = length (R ! i) \<and> Ft ! i = map2 (@) (R ! i) (S ! i))"
  using zipE_Inr [OF assms [unfolded cat3_2_def]] appendE_rows by metis

lemma take_rows:
  "length R = length S \<Longrightarrow> \<forall>r \<in> set R. length r = n \<Longrightarrow> map (take n) (map2 (@) R S) = R"
  by (induction R S rule: list_induct2) simp_all

lemma drop_rows:
  "length R = length S \<Longrightarrow> \<forall>r \<in> set R. length r = n \<Longrightarrow> map (drop n) (map2 (@) R S) = S"
  by (induction R S rule: list_induct2) simp_all

text \<open>The residual of one timestep, read off the entries it was computed from.\<close>

lemma residual_rows:
  assumes cat: "cat3_2 Rt St = Inr Ft"
    and "bmv Rt xt = Inr Rx" and "subE new_x Rx = Inr dd"
    and "bmv St ut = Inr Su" and "subE dd Su = Inr ft"
    and j: "j < length xt"
  shows "ft ! j = vsub (vsub (new_x ! j) (mv (map (take (length (xt ! j))) (Ft ! j)) (xt ! j)))
                    (mv (map (drop (length (xt ! j))) (Ft ! j)) (ut ! j))"
proof -
  note R = bmv_Inr [OF assms(2)] and D = subE_Inr [OF assms(3)]
    and S = bmv_Inr [OF assms(4)] and E = subE_Inr [OF assms(5)] and C = cat3_2_Inr [OF cat]
  from R j have jR: "j < length Rt" by simp
  from R D jR have jn: "j < length new_x" by simp
  from D jn have jd: "j < length dd" by simp
  from S C jR have jS: "j < length St" by simp
  from R jR have rows: "\<forall>r \<in> set (Rt ! j). length r = length (xt ! j)"
    and Rx: "Rx ! j = mv (Rt ! j) (xt ! j)" by simp_all
  from S jS have Su: "Su ! j = mv (St ! j) (ut ! j)" by simp
  from C jR have F: "Ft ! j = map2 (@) (Rt ! j) (St ! j)"
    and l: "length (St ! j) = length (Rt ! j)" by simp_all
  have tk: "map (take (length (xt ! j))) (Ft ! j) = Rt ! j"
    unfolding F using l [symmetric] rows by (rule take_rows)
  have dr: "map (drop (length (xt ! j))) (Ft ! j) = St ! j"
    unfolding F using l [symmetric] rows by (rule drop_rows)
  from D jn have "dd ! j = vsub (new_x ! j) (Rx ! j)" by simp
  moreover from E jd have "ft ! j = vsub (dd ! j) (Su ! j)" by simp
  ultimately show ?thesis by (simp add: tk dr Rx Su)
qed

lemma residual_rows0:
  assumes "bmv Rt xt = Inr Rx" and "subE new_x Rx = Inr dd"
    and "bmv St ut = Inr Su" and "subE dd Su = Inr ft"
    and j: "j < length xt"
  shows "ft ! j = vsub (vsub (new_x ! j) (mv (Rt ! j) (xt ! j))) (mv (St ! j) (ut ! j))"
    and "length ft = length xt" and "length Rt = length xt" and "length St = length xt"
    and "length new_x = length xt" and "length ut = length xt"
    and "length (ft ! j) = length (new_x ! j)"
    and "length (Rt ! j) = length (new_x ! j)" and "length (St ! j) = length (new_x ! j)"
    and "\<forall>r \<in> set (Rt ! j). length r = length (xt ! j)"
    and "\<forall>r \<in> set (St ! j). length r = length (ut ! j)"
proof -
  note R = bmv_Inr [OF assms(1)] and D = subE_Inr [OF assms(2)]
    and S = bmv_Inr [OF assms(3)] and E = subE_Inr [OF assms(4)]
  from R j have jR: "j < length Rt" by simp
  from R D jR have jn: "j < length new_x" by simp
  from D jn have jd: "j < length dd" by simp
  from E S jd have jS: "j < length St" by simp
  from R jR show rows: "\<forall>r \<in> set (Rt ! j). length r = length (xt ! j)" by simp
  from R jR have Rx: "Rx ! j = mv (Rt ! j) (xt ! j)" by simp
  from S jS have Su: "Su ! j = mv (St ! j) (ut ! j)" by simp
  from S jS show "\<forall>r \<in> set (St ! j). length r = length (ut ! j)" by simp
  from D jn have dd: "dd ! j = vsub (new_x ! j) (Rx ! j)"
    and l1: "length (Rx ! j) = length (new_x ! j)" by simp_all
  from E jd have ft: "ft ! j = vsub (dd ! j) (Su ! j)"
    and l2: "length (Su ! j) = length (dd ! j)" by simp_all
  from dd ft Rx Su
  show "ft ! j = vsub (vsub (new_x ! j) (mv (Rt ! j) (xt ! j))) (mv (St ! j) (ut ! j))"
    by simp
  from R D E S show "length ft = length xt" "length Rt = length xt" "length St = length xt"
    "length new_x = length xt" "length ut = length xt"
    by simp_all
  from dd l1 have ld: "length (dd ! j) = length (new_x ! j)" by (simp add: vsub_def)
  with ft l2 show "length (ft ! j) = length (new_x ! j)" by (simp add: vsub_def)
  from l1 Rx show "length (Rt ! j) = length (new_x ! j)" by (simp add: mv_def)
  from l2 ld Su show "length (St ! j) = length (new_x ! j)" by (simp add: mv_def)
qed

lemma linearize_step_Inr:
  assumes "linearize_step m e dyn nb u t xt = Inr (Ft, ft, new_x)"
  shows "t < length u \<and> length (u ! t) = length xt \<and> new_x = dyn_call dyn xt (u ! t)
    \<and> (\<exists>Rt St Rx dd Su. cat3_2 Rt St = Inr Ft \<and> bmv Rt xt = Inr Rx
          \<and> subE new_x Rx = Inr dd \<and> bmv St (u ! t) = Inr Su \<and> subE dd Su = Inr ft)"
proof -
  from assms have t: "t < length u"
    by (auto simp: linearize_step_def split: if_splits)
  with assms obtain xut where "cat_mat_1 xt (u ! t) = Inr xut"
    by (auto simp: linearize_step_def Let_def bindE_eq_Inr)
  then have len: "length (u ! t) = length xt"
    unfolding cat_mat_1_def by (auto dest: zipE_Inr)
  from assms t have "new_x = dyn_call dyn xt (u ! t)
    \<and> (\<exists>Rt St Rx dd Su. cat3_2 Rt St = Inr Ft \<and> bmv Rt xt = Inr Rx
          \<and> subE new_x Rx = Inr dd \<and> bmv St (u ! t) = Inr Su \<and> subE dd Su = Inr ft)"
    by (auto simp: linearize_step_def Let_def bindE_eq_Inr split: prod.splits) blast
  with t len show ?thesis by blast
qed

lemma linearize_steps_Inr:
  assumes "linearize_steps m e dyn nb u [a..<b] (rollout dyn x0 u a) = Inr (Fs, fs)"
  shows "length Fs = b - a \<and> length fs = b - a
    \<and> (\<forall>i<b - a. linearize_step m e dyn nb u (a + i) (rollout dyn x0 u (a + i))
                    = Inr (Fs ! i, fs ! i, rollout dyn x0 u (Suc (a + i))))"
  using assms
proof (induction "b - a" arbitrary: a Fs fs)
  case 0
  then show ?case by simp
next
  case (Suc n)
  then have ab: "a < b" and n: "n = b - Suc a" by simp_all
  then have up: "[a..<b] = a # [Suc a..<b]" by (simp add: upt_rec)
  from Suc.prems obtain Ft ft new_x Fs' fs' where
    step: "linearize_step m e dyn nb u a (rollout dyn x0 u a) = Inr (Ft, ft, new_x)"
    and rest: "linearize_steps m e dyn nb u [Suc a..<b] new_x = Inr (Fs', fs')"
    and out: "Fs = Ft # Fs'" "fs = ft # fs'"
    unfolding up by (auto simp: bindE_eq_Inr split: prod.splits)
  from linearize_step_Inr [OF step] have nx: "new_x = rollout dyn x0 u (Suc a)" by simp
  from Suc.hyps(1) [OF n rest [unfolded nx]] have
    IH: "length Fs' = b - Suc a" "length fs' = b - Suc a"
      "\<And>i. i < b - Suc a \<Longrightarrow>
         linearize_step m e dyn nb u (Suc a + i) (rollout dyn x0 u (Suc a + i))
           = Inr (Fs' ! i, fs' ! i, rollout dyn x0 u (Suc (Suc a + i)))"
    by simp_all
  have "linearize_step m e dyn nb u (a + i) (rollout dyn x0 u (a + i))
          = Inr (Fs ! i, fs ! i, rollout dyn x0 u (Suc (a + i)))" if "i < b - a" for i
  proof (cases i)
    case 0
    with step nx out show ?thesis by simp
  next
    case (Suc i')
    with that have "i' < b - Suc a" by simp
    from IH(3) [OF this] Suc out show ?thesis by simp
  qed
  with IH(1,2) out ab show ?case by simp
qed

lemma rollout_length:
  assumes "\<And>i. i < t \<Longrightarrow> \<exists>Ft ft. linearize_step m e dyn nb u i (rollout dyn x0 u i)
                    = Inr (Ft, ft, rollout dyn x0 u (Suc i))"
    and "dyn_call dyn = (\<lambda>xs us. map2 d xs us)"
  shows "length (rollout dyn x0 u t) = length x0"
  using assms(1)
proof (induction t)
  case 0
  then show ?case by simp
next
  case (Suc t)
  then have IH: "length (rollout dyn x0 u t) = length x0" by simp
  from Suc.prems [of t] obtain Ft ft where
    "linearize_step m e dyn nb u t (rollout dyn x0 u t) = Inr (Ft, ft, rollout dyn x0 u (Suc t))"
    by auto
  from linearize_step_Inr [OF this] have "length (u ! t) = length (rollout dyn x0 u t)" by simp
  with IH assms(2) show ?case by simp
qed

lemma linearize_other_residual:
  assumes gm: "self_grad_method m \<noteq> ANALYTIC"
    and ret: "linearize_dynamics m e x u dyn diff = Inr (F, f)"
    and rw: "dyn_call dyn = (\<lambda>xs us. map2 d xs us)"
    and t: "t < self_T m - 1" and j: "j < length (x ! 0)"
  shows "f ! t ! j =
      vsub (vsub (d (rollout dyn (x ! 0) u t ! j) (u ! t ! j))
              (mv (map (take (length (rollout dyn (x ! 0) u t ! j))) (F ! t ! j))
                 (rollout dyn (x ! 0) u t ! j)))
        (mv (map (drop (length (rollout dyn (x ! 0) u t ! j))) (F ! t ! j)) (u ! t ! j))"
    and "length F = self_T m - 1" and "length f = self_T m - 1"
    and "length (rollout dyn (x ! 0) u t) = length (x ! 0)"
proof -
  from ret obtain x0 xs where x: "x = x0 # xs"
    by (cases x) (auto simp: linearize_dynamics_def)
  with ret gm have "linearize_steps m e dyn (length x0) u [0..<self_T m - 1]
      (rollout dyn x0 u 0) = Inr (F, f)"
    by (auto simp: linearize_dynamics_def Let_def bindE_eq_Inr split: if_splits)
  note S = linearize_steps_Inr [OF this]
  from S show "length F = self_T m - 1" "length f = self_T m - 1" by simp_all
  from S have steps: "linearize_step m e dyn (length x0) u i (rollout dyn x0 u i)
      = Inr (F ! i, f ! i, rollout dyn x0 u (Suc i))" if "i < self_T m - 1" for i
    using that by simp
  have len: "length (rollout dyn x0 u t) = length x0"
  proof (rule rollout_length [OF _ rw])
    fix i assume "i < t"
    with t have "i < self_T m - 1" by simp
    from steps [OF this]
    show "\<exists>Ft ft. linearize_step m e dyn (length x0) u i (rollout dyn x0 u i)
        = Inr (Ft, ft, rollout dyn x0 u (Suc i))" by blast
  qed
  with x show "length (rollout dyn (x ! 0) u t) = length (x ! 0)" by simp
  let ?xt = "rollout dyn x0 u t"
  from linearize_step_Inr [OF steps [OF t]] obtain Rt St Rx dd Su where
    lu: "length (u ! t) = length ?xt" and nx: "rollout dyn x0 u (Suc t) = dyn_call dyn ?xt (u ! t)"
    and parts: "cat3_2 Rt St = Inr (F ! t)" "bmv Rt ?xt = Inr Rx"
      "subE (rollout dyn x0 u (Suc t)) Rx = Inr dd" "bmv St (u ! t) = Inr Su"
      "subE dd Su = Inr (f ! t)"
    by blast
  from j x len have jt: "j < length ?xt" by simp
  have "rollout dyn x0 u (Suc t) ! j = d (?xt ! j) (u ! t ! j)"
    using jt lu by (simp add: rw)
  with residual_rows [OF parts jt] x
  show "f ! t ! j =
      vsub (vsub (d (rollout dyn (x ! 0) u t ! j) (u ! t ! j))
              (mv (map (take (length (rollout dyn (x ! 0) u t ! j))) (F ! t ! j))
                 (rollout dyn (x ! 0) u t ! j)))
        (mv (map (drop (length (rollout dyn (x ! 0) u t ! j))) (F ! t ! j)) (u ! t ! j))"
    by simp
qed

lemma concat_uniform_length:
  "\<forall>r \<in> set X. length r = n \<Longrightarrow> length (concat X) = length X * n"
  by (induction X) simp_all

lemma take_drop_concat:
  "\<forall>r \<in> set X. length r = n \<Longrightarrow> i < length X \<Longrightarrow> take n (drop (i * n) (concat X)) = X ! i"
proof (induction X arbitrary: i)
  case Nil
  then show ?case by simp
next
  case (Cons r X)
  show ?case
  proof (cases i)
    case 0
    with Cons.prems show ?thesis by simp
  next
    case (Suc i')
    with Cons.prems have "i' < length X" "\<forall>r \<in> set X. length r = n" "length r = n" by simp_all
    with Cons.IH [of i'] Suc show ?thesis by simp
  qed
qed

lemma nth_concat_uniform:
  assumes "\<forall>r \<in> set X. length r = n" "i < length X" "k < n"
  shows "concat X ! (i * n + k) = X ! i ! k"
proof -
  have "i * n + k < length (concat X)"
  proof -
    have "i * n + k < i * n + n" using assms(3) by simp
    also have "\<dots> = Suc i * n" by simp
    also have "\<dots> \<le> length X * n" using assms(2) by (intro mult_le_mono1) simp
    finally show ?thesis by (simp add: concat_uniform_length [OF assms(1)])
  qed
  then have "concat X ! (i * n + k) = take n (drop (i * n) (concat X)) ! k"
    using assms(3) by (simp add: add.commute)
  with take_drop_concat [OF assms(1,2)] show ?thesis by simp
qed

lemma view2_rows:
  assumes "\<forall>r \<in> set X. length r = n" "0 < n"
  shows "view2 n (concat X) = Inr X"
proof -
  have l: "length (concat X) = length X * n" by (rule concat_uniform_length [OF assms(1)])
  have "map (\<lambda>i. take n (drop (i * n) (concat X))) [0..<length X] = X"
    by (rule nth_equalityI) (simp_all add: take_drop_concat [OF assms(1)])
  with l assms(2) show ?thesis by (simp add: view2_def)
qed

lemma index_bound: "t < a \<Longrightarrow> j < (B::nat) \<Longrightarrow> t * B + j < a * B"
proof -
  assume "t < a" "j < B"
  then have "t * B + j < Suc t * B" by simp
  also have "\<dots> \<le> a * B" using \<open>t < a\<close> by (intro mult_le_mono1) simp
  finally show ?thesis .
qed

lemma view3_nth:
  assumes "view3 a B n (concat X) = Inr V" and "\<forall>r \<in> set X. length r = n"
    and "length X = a * B" and "t < a" and "j < B"
  shows "V ! t ! j = X ! (t * B + j)"
proof -
  from assms(1) have V: "V = map (\<lambda>i. map (\<lambda>j. take n (drop ((i * B + j) * n) (concat X)))
      [0..<B]) [0..<a]"
    by (auto simp: view3_def split: if_splits)
  have "t * B + j < length X" using index_bound [OF assms(4,5)] assms(3) by simp
  from take_drop_concat [OF assms(2) this] assms(4,5) show ?thesis by (simp add: V)
qed

lemma view4_nth:
  assumes "view4 a B n w (concat (concat X)) = Inr V"
    and rows: "\<forall>M \<in> set X. length M = n \<and> (\<forall>r \<in> set M. length r = w)"
    and "length X = a * B" and "t < a" and "j < B"
  shows "V ! t ! j = X ! (t * B + j)"
proof -
  from assms(1) have V: "V = map (\<lambda>i. map (\<lambda>j. map (\<lambda>k.
      take w (drop (((i * B + j) * n + k) * w) (concat (concat X)))) [0..<n]) [0..<B]) [0..<a]"
    by (auto simp: view4_def split: if_splits)
  let ?i = "t * B + j"
  have i: "?i < length X" using index_bound [OF assms(4,5)] assms(3) by simp
  have un: "\<forall>M \<in> set X. length M = n" using rows by simp
  have uw: "\<forall>r \<in> set (concat X). length r = w" using rows by auto
  have ln: "length (X ! ?i) = n" using un i by simp
  have row: "take w (drop ((?i * n + k) * w) (concat (concat X))) = X ! ?i ! k" if "k < n" for k
  proof -
    have "?i * n + k < length (concat X)"
      using index_bound [OF i that] by (simp add: concat_uniform_length [OF un])
    from take_drop_concat [OF uw this] nth_concat_uniform [OF un i that] show ?thesis by simp
  qed
  have "V ! t ! j = map (\<lambda>k. X ! ?i ! k) [0..<n]"
    using assms(4,5) row by (simp add: V)
  also have "\<dots> = X ! ?i" using ln map_nth [of "X ! ?i"] by simp
  finally show ?thesis .
qed

lemma cat4_3_nth:
  assumes "cat4_3 R S = Inr F" "t < length R" "j < length (R ! t)"
  shows "F ! t ! j = map2 (@) (R ! t ! j) (S ! t ! j) \<and> length (S ! t ! j) = length (R ! t ! j)"
proof -
  from zipE_Inr [OF assms(1) [unfolded cat4_3_def]] assms(2)
  have "zipE (zipE appendE) (R ! t) (S ! t) = Inr (F ! t)" by simp
  from zipE_Inr [OF this] assms(3)
  have "zipE appendE (R ! t ! j) (S ! t ! j) = Inr (F ! t ! j)" by simp
  from appendE_rows [OF this] show ?thesis by simp
qed

lemma view4_sizes:
  assumes "view4 a B n w ys = Inr V" and "t < a"
  shows "length V = a" and "length (V ! t) = B"
  using assms by (auto simp: view4_def split: if_splits)

lemma butlast_shape:
  assumes "has_shape3 T B n x"
  shows "length (butlast x) = T - 1"
    and "\<forall>xt \<in> set (butlast x). length xt = B"
    and "\<forall>r \<in> set (concat (butlast x)). length r = n"
    and "length (concat (butlast x)) = (T - 1) * B"
    and "t < T - 1 \<Longrightarrow> j < B \<Longrightarrow> concat (butlast x) ! (t * B + j) = x ! t ! j"
proof -
  from assms have l: "length x = T"
    and m: "\<And>xt. xt \<in> set x \<Longrightarrow> length xt = B \<and> (\<forall>r \<in> set xt. length r = n)"
    by (auto simp: has_shape3_def)
  show 1: "length (butlast x) = T - 1" using l by simp
  show 2: "\<forall>xt \<in> set (butlast x). length xt = B" using m by (auto dest: in_set_butlastD)
  show "\<forall>r \<in> set (concat (butlast x)). length r = n" using m by (auto dest: in_set_butlastD)
  show "length (concat (butlast x)) = (T - 1) * B"
    using concat_uniform_length [OF 2] 1 by simp
  assume t: "t < T - 1" and j: "j < B"
  with 1 have "t < length (butlast x)" by simp
  from nth_concat_uniform [OF 2 this j] t 1 show "concat (butlast x) ! (t * B + j) = x ! t ! j"
    by (simp add: nth_butlast)
qed

lemma linearize_analytic_residual:
  assumes gm: "self_grad_method m = ANALYTIC"
    and ret: "linearize_dynamics m e x u dyn diff = Inr (F, f)"
    and rw: "dyn_call dyn = (\<lambda>xs us. map2 d xs us)"
    and len: "\<And>xv uv. length xv = self_n_state m \<Longrightarrow> length uv = self_n_ctrl m
                 \<Longrightarrow> length (d xv uv) = self_n_state m"
    and shx: "has_shape3 (self_T m) B (self_n_state m) x"
    and shu: "has_shape3 (self_T m) B (self_n_ctrl m) u"
    and t: "t < self_T m - 1" and j: "j < B"
  shows "f ! t ! j =
      vsub (vsub (d (x ! t ! j) (u ! t ! j))
              (mv (map (take (self_n_state m)) (F ! t ! j)) (x ! t ! j)))
        (mv (map (drop (self_n_state m)) (F ! t ! j)) (u ! t ! j))"
proof -
  let ?T = "self_T m" and ?ns = "self_n_state m" and ?nc = "self_n_ctrl m"
  let ?X = "concat (butlast x)" and ?U = "concat (butlast u)"
  let ?i = "t * B + j"
  note bx = butlast_shape [OF shx] and bu = butlast_shape [OF shu]
  from shx t obtain x0 xs where x: "x = x0 # xs"
    by (cases x) (auto simp: has_shape3_def)
  with shx have B: "length x0 = B" by (simp add: has_shape3_def)
  from ret gm x B have an: "linearize_analytic m dyn x u B = Inr (F, f)"
    by (simp add: linearize_dynamics_def Let_def)
  from an obtain u' x' where vu: "view2 ?nc (concat ?U) = Inr u'"
    and vx: "view2 ?ns (concat ?X) = Inr x'"
    unfolding linearize_analytic_def by (auto simp: bindE_eq_Inr)
  from vu vx have pos: "0 < ?nc" "0 < ?ns" by (auto simp: view2_def split: if_splits)
  from vu view2_rows [OF bu(3) pos(1)] have u': "u' = ?U" by simp
  from vx view2_rows [OF bx(3) pos(2)] have x': "x' = ?X" by simp
  obtain R S where RS: "grad_input dyn ?X ?U = (R, S)" by (cases "grad_input dyn ?X ?U")
  let ?new = "dyn_call dyn ?X ?U"
  from an vu vx u' x' RS obtain Rx dd Su ff f3 R4 S4 where
    parts: "bmv R ?X = Inr Rx" "subE ?new Rx = Inr dd" "bmv S ?U = Inr Su" "subE dd Su = Inr ff"
    and v3: "view3 (?T - 1) B ?ns (concat ff) = Inr f3"
    and vR: "view4 (?T - 1) B ?ns ?ns (concat (concat R)) = Inr R4"
    and vS: "view4 (?T - 1) B ?ns ?nc (concat (concat S)) = Inr S4"
    and cat: "cat4_3 R4 S4 = Inr F" and f3: "f3 = f"
    unfolding linearize_analytic_def by (auto simp: bindE_eq_Inr Let_def)
  have lX: "length ?X = (?T - 1) * B" by (rule bx(4))
  have lU: "length ?U = length ?X" using bu(4) lX by simp
  have new: "?new ! i = d (?X ! i) (?U ! i)" if "i < length ?X" for i
    using that lU by (simp add: rw)
  have lnew: "length (?new ! i) = ?ns" if "i < length ?X" for i
  proof -
    from that have "?X ! i \<in> set ?X" by (rule nth_mem)
    with bx(3) have "length (?X ! i) = ?ns" by blast
    moreover from that lU have "i < length ?U" by simp
    then have "?U ! i \<in> set ?U" by (rule nth_mem)
    with bu(3) have "length (?U ! i) = ?nc" by blast
    ultimately show ?thesis using new [OF that] len by simp
  qed
  have rows: "ff ! i = vsub (vsub (d (?X ! i) (?U ! i)) (mv (R ! i) (?X ! i))) (mv (S ! i) (?U ! i))
      \<and> length (ff ! i) = ?ns
      \<and> length (R ! i) = ?ns \<and> (\<forall>r \<in> set (R ! i). length r = ?ns)
      \<and> length (S ! i) = ?ns \<and> (\<forall>r \<in> set (S ! i). length r = ?nc)"
    if "i < length ?X" for i
  proof -
    note P = residual_rows0 [OF parts that]
    from that have "?X ! i \<in> set ?X" by (rule nth_mem)
    moreover from that lU have "i < length ?U" by simp
    then have "?U ! i \<in> set ?U" by (rule nth_mem)
    ultimately have "length (?X ! i) = ?ns" "length (?U ! i) = ?nc"
      using bx(3) bu(3) by blast+
    with P new [OF that] lnew [OF that] show ?thesis by simp
  qed
  from residual_rows0(2-4) [OF parts] lX t j
  have lens: "length ff = length ?X" "length R = length ?X" "length S = length ?X"
    using index_bound [OF t j] by (metis)+
  have lf: "length (ff ! i) = ?ns" if "i < length ?X" for i
    using rows [OF that] by blast
  have lR: "length (R ! i) = ?ns \<and> (\<forall>r \<in> set (R ! i). length r = ?ns)"
    if "i < length ?X" for i
    using rows [OF that] by blast
  have lS: "length (S ! i) = ?ns \<and> (\<forall>r \<in> set (S ! i). length r = ?nc)"
    if "i < length ?X" for i
    using rows [OF that] by blast
  have uf: "\<forall>r \<in> set ff. length r = ?ns"
  proof
    fix r assume "r \<in> set ff"
    then obtain i where "i < length ff" "r = ff ! i" by (auto simp: in_set_conv_nth)
    with lens lf show "length r = ?ns" by simp
  qed
  have uR: "\<forall>M \<in> set R. length M = ?ns \<and> (\<forall>r \<in> set M. length r = ?ns)"
  proof
    fix M assume "M \<in> set R"
    then obtain i where "i < length R" "M = R ! i" by (auto simp: in_set_conv_nth)
    with lens lR show "length M = ?ns \<and> (\<forall>r \<in> set M. length r = ?ns)" by simp
  qed
  have uS: "\<forall>M \<in> set S. length M = ?ns \<and> (\<forall>r \<in> set M. length r = ?nc)"
  proof
    fix M assume "M \<in> set S"
    then obtain i where "i < length S" "M = S ! i" by (auto simp: in_set_conv_nth)
    with lens lS show "length M = ?ns \<and> (\<forall>r \<in> set M. length r = ?nc)" by simp
  qed
  have i: "?i < length ?X" using index_bound [OF t j] lX by simp
  have fi: "f ! t ! j = ff ! ?i"
    using view3_nth [OF v3 uf _ t j] lens lX f3 by simp
  have Ri: "R4 ! t ! j = R ! ?i" using view4_nth [OF vR uR _ t j] lens lX by simp
  have Si: "S4 ! t ! j = S ! ?i" using view4_nth [OF vS uS _ t j] lens lX by simp
  from view4_sizes [OF vR t] j t have "t < length R4" "j < length (R4 ! t)" by simp_all
  from cat4_3_nth [OF cat this] Ri Si have Fi: "F ! t ! j = map2 (@) (R ! ?i) (S ! ?i)"
    and lRS: "length (R ! ?i) = length (S ! ?i)" by simp_all
  from rows [OF i] have rr: "\<forall>r \<in> set (R ! ?i). length r = ?ns" by simp
  have tk: "map (take ?ns) (F ! t ! j) = R ! ?i" unfolding Fi using lRS rr by (rule take_rows)
  have dr: "map (drop ?ns) (F ! t ! j) = S ! ?i" unfolding Fi using lRS rr by (rule drop_rows)
  from rows [OF i] fi bx(5) [OF t j] bu(5) [OF t j] show ?thesis by (simp add: tk dr)
qed

lemma rollout_shape:
  assumes rw: "dyn_call dyn = (\<lambda>xs us. map2 d xs us)"
    and len: "\<And>xv uv. length xv = n \<Longrightarrow> length uv = nc \<Longrightarrow> length (d xv uv) = n"
    and shu: "has_shape3 T B nc u"
    and x0: "length x0 = B" "\<forall>r \<in> set x0. length r = n"
    and t: "t \<le> T"
  shows "length (rollout dyn x0 u t) = B \<and> (\<forall>r \<in> set (rollout dyn x0 u t). length r = n)"
  using t
proof (induction t)
  case 0
  with x0 show ?case by simp
next
  case (Suc t)
  then have IH: "length (rollout dyn x0 u t) = B" "\<forall>r \<in> set (rollout dyn x0 u t). length r = n"
    by simp_all
  from Suc.prems shu have "u ! t \<in> set u" by (simp add: has_shape3_def)
  with shu have lu: "length (u ! t) = B" and wu: "\<forall>r \<in> set (u ! t). length r = nc"
    by (simp_all add: has_shape3_def)
  have "length r = n" if "r \<in> set (map2 d (rollout dyn x0 u t) (u ! t))" for r
  proof -
    from that obtain a b where "(a, b) \<in> set (zip (rollout dyn x0 u t) (u ! t))" "r = d a b"
      by auto
    then have "a \<in> set (rollout dyn x0 u t)" "b \<in> set (u ! t)" "r = d a b"
      by (auto dest: set_zip_leftD set_zip_rightD)
    with IH(2) wu len show ?thesis by simp
  qed
  with IH(1) lu show ?case by (simp add: rw)
qed

lemma rollout_consistent:
  assumes "\<And>s. s < t \<Longrightarrow> x ! Suc s = dyn_call dyn (x ! s) (u ! s)"
  shows "rollout dyn (x ! 0) u t = x ! t"
  using assms by (induction t) simp_all

text \<open>
  C5. For each of the three strategies (analytic, automatic differentiation, finite
  differences), whenever \<open>linearize_dynamics\<close> returns \<open>F\<close> and \<open>f\<close>, the residual of every
  timestep \<open>t < T - 1\<close> and batch element \<open>j\<close> is the dynamics output at the nominal point
  minus the parts that the Jacobian blocks of \<open>F\<close> predict:
  \<open>f\<^sub>t = d(x\<^sub>t, u\<^sub>t) - R\<^sub>t\<cdot>x\<^sub>t - S\<^sub>t\<cdot>u\<^sub>t\<close>, where \<open>R\<^sub>t\<close> is the first \<open>n_state\<close> columns of \<open>F\<^sub>t\<close> and
  \<open>S\<^sub>t\<close> the rest. The dynamics act on each batch row by \<open>d\<close> and keep the state's
  dimension, and \<open>x\<close> and \<open>u\<close> have the sizes of the problem. The nominal state is \<open>x\<^sub>t\<close> of the
  given trajectory whenever that is a trajectory of the dynamics.
\<close>

theorem linearize_residual:
  assumes strategy: "self_grad_method m = ANALYTIC \<or> self_grad_method m = AUTO_DIFF
      \<or> self_grad_method m = FINITE_DIFF"
    and ret: "linearize_dynamics m e x u dyn diff = Inr (F, f)"
    and rw: "dyn_call dyn = (\<lambda>xs us. map2 d xs us)"
    and len: "\<And>xv uv. length xv = self_n_state m \<Longrightarrow> length uv = self_n_ctrl m
                 \<Longrightarrow> length (d xv uv) = self_n_state m"
    and shx: "has_shape3 (self_T m) B (self_n_state m) x"
    and shu: "has_shape3 (self_T m) B (self_n_ctrl m) u"
    and t: "t < self_T m - 1" and j: "j < B"
  shows "f ! t ! j =
      vsub (vsub (d (nominal m dyn x u t ! j) (u ! t ! j))
              (mv (map (take (self_n_state m)) (F ! t ! j)) (nominal m dyn x u t ! j)))
        (mv (map (drop (self_n_state m)) (F ! t ! j)) (u ! t ! j))
    \<and> ((\<forall>s<t. x ! Suc s = dyn_call dyn (x ! s) (u ! s)) \<longrightarrow> nominal m dyn x u t = x ! t)"
proof -
  have cons: "(\<forall>s<t. x ! Suc s = dyn_call dyn (x ! s) (u ! s)) \<longrightarrow> nominal m dyn x u t = x ! t"
    by (auto simp: nominal_def intro: rollout_consistent)
  show ?thesis
  proof (cases "self_grad_method m = ANALYTIC")
    case True
    from linearize_analytic_residual [OF True ret rw len shx shu t j] True cons
    show ?thesis by (simp add: nominal_def)
  next
    case False
    from shx t obtain x0 xs where x: "x = x0 # xs"
      by (cases x) (auto simp: has_shape3_def)
    with shx have x0: "length x0 = B" "\<forall>r \<in> set x0. length r = self_n_state m"
      by (simp_all add: has_shape3_def)
    from t have "t \<le> self_T m" by simp
    from rollout_shape [OF rw len shu x0 this] j
    have "rollout dyn x0 u t ! j \<in> set (rollout dyn x0 u t)"
      and "\<forall>r \<in> set (rollout dyn x0 u t). length r = self_n_state m"
      by simp_all
    then have ns: "length (rollout dyn (x ! 0) u t ! j) = self_n_state m"
      using x by simp
    from j x x0 have "j < length (x ! 0)" by simp
    from linearize_other_residual(1) [OF False ret rw t this] ns False cons
    show ?thesis by (simp add: nominal_def)
  qed
qed

lemmas lin_defs = linearize_dynamics_def linearize_analytic_def linearize_step_def
  autodiff_jac_def finite_diff_jac_def analytic_check_def stack_dim1_def view2_def view3_def
  view4_def bmv_def mvE_def subE_def cat4_3_def cat3_2_def cat_mat_1_def appendE_def dot_def
  assertE_def sq_step_def sq_dyn_def bad_dyn_def fd_jacobian_def lin_env_def toy_env_def
  mpc_lin_def mpc_example_def x_lin_def u_lin_def Let_def eval_nat_numeral

lemma sq_rows: "dyn_call sq_dyn = (\<lambda>xs us. map2 sq_step xs us)"
  by (simp add: sq_dyn_def)

lemma sq_length:
  "length xv = self_n_state (mpc_lin gm) \<Longrightarrow> length uv = self_n_ctrl (mpc_lin gm)
     \<Longrightarrow> length (sq_step xv uv) = self_n_state (mpc_lin gm)"
  by (simp add: sq_step_def mpc_lin_def mpc_example_def)

lemma lin_shapes:
  "has_shape3 (self_T (mpc_lin gm)) 2 (self_n_state (mpc_lin gm)) x_lin"
  "has_shape3 (self_T (mpc_lin gm)) 2 (self_n_ctrl (mpc_lin gm)) u_lin"
  by (simp_all add: has_shape3_def mpc_lin_def mpc_example_def x_lin_def u_lin_def)

lemma lin_runs:
  "linearize_dynamics (mpc_lin ANALYTIC) lin_env x_lin u_lin sq_dyn False = Inr (F_lin, f_lin)"
  "linearize_dynamics (mpc_lin AUTO_DIFF) lin_env x_lin u_lin sq_dyn False = Inr (F_lin, f_lin)"
  "linearize_dynamics (mpc_lin FINITE_DIFF) lin_env x_lin u_lin sq_dyn False = Inr (F_lin, f_lin)"
  by (simp_all add: lin_defs F_lin_def f_lin_def)

theorem linearize_residual_witness:
  "linearize_dynamics (mpc_lin ANALYTIC) lin_env x_lin u_lin sq_dyn False = Inr (F_lin, f_lin)
   \<and> linearize_dynamics (mpc_lin AUTO_DIFF) lin_env x_lin u_lin sq_dyn False = Inr (F_lin, f_lin)
   \<and> linearize_dynamics (mpc_lin FINITE_DIFF) lin_env x_lin u_lin sq_dyn False
        = Inr (F_lin, f_lin)
   \<and> nominal (mpc_lin ANALYTIC) sq_dyn x_lin u_lin 1 = x_lin ! 1
   \<and> nominal (mpc_lin AUTO_DIFF) sq_dyn x_lin u_lin 1 = x_lin ! 1
   \<and> nominal (mpc_lin FINITE_DIFF) sq_dyn x_lin u_lin 1 = x_lin ! 1
   \<and> f_lin ! 1 ! 1 = vsub (vsub (sq_step [4] [1]) (mv [[8]] [4])) (mv [[1]] [1])"
proof -
  have t: "1 < self_T (mpc_lin gm) - 1" for gm
    by (simp add: mpc_lin_def mpc_example_def)
  have j: "(1::nat) < 2" by simp
  have traj: "\<forall>s<1. x_lin ! Suc s = dyn_call sq_dyn (x_lin ! s) (u_lin ! s)"
    by (simp add: x_lin_def u_lin_def sq_dyn_def sq_step_def)
  have gm: "self_grad_method (mpc_lin gm) = gm" for gm
    by (simp add: mpc_lin_def)
  note A = linearize_residual [OF _ lin_runs(1) sq_rows sq_length lin_shapes t j]
    and B = linearize_residual [OF _ lin_runs(2) sq_rows sq_length lin_shapes t j]
    and C = linearize_residual [OF _ lin_runs(3) sq_rows sq_length lin_shapes t j]
  from A traj have a: "nominal (mpc_lin ANALYTIC) sq_dyn x_lin u_lin 1 = x_lin ! 1"
    by (simp add: gm)
  from B traj have b: "nominal (mpc_lin AUTO_DIFF) sq_dyn x_lin u_lin 1 = x_lin ! 1"
    and res: "f_lin ! 1 ! 1 =
      vsub (vsub (sq_step (nominal (mpc_lin AUTO_DIFF) sq_dyn x_lin u_lin 1 ! 1) (u_lin ! 1 ! 1))
              (mv (map (take (self_n_state (mpc_lin AUTO_DIFF))) (F_lin ! 1 ! 1))
                 (nominal (mpc_lin AUTO_DIFF) sq_dyn x_lin u_lin 1 ! 1)))
        (mv (map (drop (self_n_state (mpc_lin AUTO_DIFF))) (F_lin ! 1 ! 1)) (u_lin ! 1 ! 1))"
    by (simp_all add: gm)
  from C traj have c: "nominal (mpc_lin FINITE_DIFF) sq_dyn x_lin u_lin 1 = x_lin ! 1"
    by (simp add: gm)
  from res have "f_lin ! 1 ! 1 = vsub (vsub (sq_step [4] [1]) (mv [[8]] [4])) (mv [[1]] [1])"
    unfolding b by (simp add: x_lin_def u_lin_def F_lin_def mpc_lin_def mpc_example_def)
  with lin_runs a b c show ?thesis by simp
qed

section \<open>The analytic-check strategy\<close>

lemma zipE_Inl:
  "zipE g as bs = Inl err \<Longrightarrow> err = RuntimeError \<or> (\<exists>a b. g a b = Inl err)"
  by (induction g as bs rule: zipE.induct) (auto simp: bindE_def split: sum.splits)

lemma zipE_appendE_Inl: "zipE appendE as bs = Inl err \<Longrightarrow> err = RuntimeError"
  by (auto dest: zipE_Inl simp: appendE_def)

lemma zipE_appendE_total: "length as = length bs \<Longrightarrow> \<exists>cs. zipE appendE as bs = Inr cs"
  by (induction as bs rule: list_induct2) (auto simp: appendE_def)

lemma mapE_Inl: "mapE g as = Inl err \<Longrightarrow> \<exists>a \<in> set as. g a = Inl err"
  by (induction as) (auto simp: bindE_def split: sum.splits)

lemma stack_dim1_Inl: "stack_dim1 Ms = Inl err \<Longrightarrow> err = RuntimeError"
  by (auto simp: stack_dim1_def split: list.splits if_splits)

lemma autodiff_jac_Inl:
  assumes "autodiff_jac m e dyn xt ut new_x = Inl err"
  shows "err = IndexError \<or> err = RuntimeError"
proof -
  let ?g = "\<lambda>j. if \<forall>r \<in> set new_x. j < length r
                  then Inr (autograd_grad e dyn xt ut j) else Inl IndexError"
  show ?thesis
  proof (cases "mapE ?g [0..<self_n_state m]")
    case (Inl e1)
    from mapE_Inl [OF Inl] have "e1 = IndexError" by (auto split: if_splits)
    with Inl assms show ?thesis by (simp add: autodiff_jac_def)
  next
    case (Inr gs)
    with assms show ?thesis
      by (auto simp: autodiff_jac_def bindE_def split: sum.splits dest: stack_dim1_Inl)
  qed
qed

lemma analytic_check_fails: "analytic_check dyn xt ut Rt St = Inl (AssertionError None)"
  by (simp add: analytic_check_def assertE_def)

lemma linearize_step_check:
  assumes "self_grad_method m = ANALYTIC_CHECK"
  shows "\<exists>err. linearize_step m e dyn nb u t xt = Inl err
    \<and> (err = AssertionError None \<or> err = IndexError \<or> err = RuntimeError)"
proof (cases "t < length u")
  case False
  then show ?thesis by (simp add: linearize_step_def)
next
  case True
  show ?thesis
  proof (cases "cat_mat_1 xt (u ! t)")
    case (Inl e1)
    then have "e1 = RuntimeError" unfolding cat_mat_1_def by (rule zipE_appendE_Inl)
    with Inl True show ?thesis by (simp add: linearize_step_def)
  next
    case (Inr xut)
    show ?thesis
    proof (cases "autodiff_jac m e dyn xt (u ! t) (dyn_call dyn xt (u ! t))")
      case (Inl e2)
      from autodiff_jac_Inl [OF Inl] Inl Inr True assms show ?thesis
        by (auto simp: linearize_step_def)
    next
      case J: (Inr J)
      with Inr True assms show ?thesis
        by (simp add: linearize_step_def analytic_check_fails split: prod.splits)
    qed
  qed
qed

text \<open>
  C6, as the code has it. The block of the analytic-check strategy starts with
  \<^verbatim>\<open>assert False\<close>, so it raises an assertion error before the two Jacobians are compared
  and before any message is printed. With that strategy \<open>linearize_dynamics\<close> never returns
  and never exits the process: it raises the assertion error as soon as the first timestep
  has its Jacobian by automatic differentiation, unless an index or size error came
  earlier.
\<close>

theorem analytic_check_asserts:
  "analytic_check dyn' xt ut Rt St = Inl (AssertionError None)
   \<and> (self_grad_method m = ANALYTIC_CHECK \<longrightarrow>
        (\<exists>err. linearize_dynamics m e x u dyn diff = Inl err
           \<and> (err = AssertionError None \<or> err = IndexError \<or> err = RuntimeError)))
   \<and> (self_grad_method m = ANALYTIC_CHECK \<and> 1 < self_T m \<and> x = x0 # xs \<and> u = u0 # us
        \<and> length u0 = length x0
        \<and> autodiff_jac m e dyn x0 u0 (dyn_call dyn x0 u0) = Inr J \<longrightarrow>
        linearize_dynamics m e x u dyn diff = Inl (AssertionError None))"
proof (intro conjI impI)
  show "analytic_check dyn' xt ut Rt St = Inl (AssertionError None)"
    by (rule analytic_check_fails)
next
  assume gm: "self_grad_method m = ANALYTIC_CHECK"
  show "\<exists>err. linearize_dynamics m e x u dyn diff = Inl err
           \<and> (err = AssertionError None \<or> err = IndexError \<or> err = RuntimeError)"
  proof (cases x)
    case Nil
    then show ?thesis by (simp add: linearize_dynamics_def)
  next
    case (Cons x0 xs)
    show ?thesis
    proof (cases "[0..<self_T m - 1]")
      case Nil
      with Cons gm show ?thesis by (simp add: linearize_dynamics_def)
    next
      case ts: (Cons a ts)
      from linearize_step_check [OF gm, of e dyn "length x0" u a x0] obtain err where
        "linearize_step m e dyn (length x0) u a x0 = Inl err"
        "err = AssertionError None \<or> err = IndexError \<or> err = RuntimeError"
        by blast
      with Cons gm ts show ?thesis by (simp add: linearize_dynamics_def)
    qed
  qed
next
  assume A: "self_grad_method m = ANALYTIC_CHECK \<and> 1 < self_T m \<and> x = x0 # xs \<and> u = u0 # us
        \<and> length u0 = length x0
        \<and> autodiff_jac m e dyn x0 u0 (dyn_call dyn x0 u0) = Inr J"
  then have ts: "[0..<self_T m - 1] = 0 # [1..<self_T m - 1]" by (simp add: upt_rec)
  have "\<exists>xut. cat_mat_1 x0 u0 = Inr xut"
    using A unfolding cat_mat_1_def by (intro zipE_appendE_total) simp
  then obtain xut where "cat_mat_1 x0 u0 = Inr xut" by blast
  with A have "linearize_step m e dyn (length x0) u 0 x0 = Inl (AssertionError None)"
    by (simp add: linearize_step_def analytic_check_fails split: prod.splits)
  with A ts show "linearize_dynamics m e x u dyn diff = Inl (AssertionError None)"
    by (simp add: linearize_dynamics_def)
qed

theorem analytic_check_asserts_witness:
  "self_grad_method (mpc_lin ANALYTIC_CHECK) = ANALYTIC_CHECK
   \<and> 1 < self_T (mpc_lin ANALYTIC_CHECK)
   \<and> linearize_dynamics (mpc_lin ANALYTIC_CHECK) lin_env x_lin u_lin sq_dyn False
       = Inl (AssertionError None)"
proof -
  have gm: "self_grad_method (mpc_lin ANALYTIC_CHECK) = ANALYTIC_CHECK"
    and T: "1 < self_T (mpc_lin ANALYTIC_CHECK)"
    by (simp_all add: mpc_lin_def mpc_example_def)
  have jac: "autodiff_jac (mpc_lin ANALYTIC_CHECK) lin_env sq_dyn [[1], [2]] [[1], [0]]
      (dyn_call sq_dyn [[1], [2]] [[1], [0]]) = Inr ([[[2]], [[4]]], [[[1]], [[1]]])"
    by (simp add: lin_defs)
  from analytic_check_asserts [of sq_dyn "[]" "[]" "[]" "[]" "mpc_lin ANALYTIC_CHECK" lin_env
      x_lin u_lin sq_dyn False "[[1], [2]]" "[[[2], [4]], [[4], [17]]]" "[[1], [0]]"
      "[[[0], [1]], [[0], [0]]]" "([[[2]], [[4]]], [[[1]], [[1]]])"] gm T jac
  show ?thesis by (simp add: x_lin_def u_lin_def)
qed

text \<open>
  C6 as stated does not hold. With dynamics whose analytic Jacobian agrees with automatic
  differentiation, no success message is printed and the process does not exit: the
  result is an assertion error. With a wrong analytic Jacobian no diagnostic is printed
  either: the result is the same assertion error.
\<close>

theorem analytic_check_counterexample:
  "linearize_dynamics (mpc_lin ANALYTIC_CHECK) lin_env x_lin u_lin sq_dyn False
     = Inl (AssertionError None)
   \<and> linearize_dynamics (mpc_lin ANALYTIC_CHECK) lin_env x_lin u_lin sq_dyn False
     \<noteq> Inl (SystemExit 0 analytic_check_ok)
   \<and> linearize_dynamics (mpc_lin ANALYTIC_CHECK) lin_env x_lin u_lin bad_dyn False
     = Inl (AssertionError None)
   \<and> linearize_dynamics (mpc_lin ANALYTIC_CHECK) lin_env x_lin u_lin bad_dyn False
     \<noteq> Inl (SystemExit 0 [analytic_check_error])"
  by (simp add: lin_defs)

section \<open>Controls within the box\<close>

lemma clip_between: "lo \<le> hi \<Longrightarrow> lo \<le> clip lo hi v \<and> clip lo hi v \<le> hi"
  by (simp add: clip_def)

lemma rollout_j_length: "length (rollout_j a g j \<alpha> ts xh) = length ts"
  by (induction ts arbitrary: xh) (simp_all add: Let_def)

lemma rollout_j_controls:
  "i < length ts \<Longrightarrow>
     \<exists>w. snd (rollout_j a g j \<alpha> ts xh ! i)
        = map (\<lambda>k. clip_box (lqr_u_lower a) (lqr_u_upper a) (ts ! i) j k (w k)) [0..<lqr_n_ctrl a]"
proof (induction ts arbitrary: xh i)
  case Nil
  then show ?case by simp
next
  case (Cons t ts)
  show ?case
  proof (cases i)
    case 0
    then show ?thesis by (auto simp: Let_def)
  next
    case (Suc i')
    with Cons.prems have "i' < length ts" by simp
    from Cons.IH [OF this] Suc show ?thesis by (simp add: Let_def)
  qed
qed

lemma LQRStep_spec_in_box:
  assumes ret: "LQRStep_spec p a = Inr r"
    and lo: "lqr_u_lower a = Some lo" and hi: "lqr_u_upper a = Some hi"
    and ord: "box_ordered (lqr_T a) (length (lqr_x_init a)) (lqr_n_ctrl a) lo hi"
  shows "in_box (lqr_T a) (length (lqr_x_init a)) (lqr_n_ctrl a) lo hi (ret_u r)"
proof -
  let ?T = "lqr_T a" and ?B = "length (lqr_x_init a)" and ?n = "lqr_n_ctrl a"
  from ret obtain g where "r = forward_phase p a g"
    by (auto simp: LQRStep_spec_def Let_def bindE_eq_Inr split: if_splits)
  then have u: "ret_u r = map (\<lambda>t. map (\<lambda>j. snd (rollout_j a g j (step_size a g j) [0..<?T]
          (lqr_x_init a ! j) ! t)) [0..<?B]) [0..<?T]"
    by (simp add: forward_phase_def Let_def)
  have entry: "length (ret_u r ! t ! j) = ?n
      \<and> (\<forall>k<?n. bound_at lo t j k \<le> ret_u r ! t ! j ! k \<and> ret_u r ! t ! j ! k \<le> bound_at hi t j k)"
    if t: "t < ?T" and j: "j < ?B" for t j
  proof -
    from t have "t < length [0..<?T]" by simp
    from rollout_j_controls [OF this, of a g j "step_size a g j" "lqr_x_init a ! j"] t
    obtain w where w: "snd (rollout_j a g j (step_size a g j) [0..<?T] (lqr_x_init a ! j) ! t)
        = map (\<lambda>k. clip_box (Some lo) (Some hi) t j k (w k)) [0..<?n]"
      by (auto simp: lo hi)
    from t j u w have e: "ret_u r ! t ! j = map (\<lambda>k. clip (bound_at lo t j k) (bound_at hi t j k) (w k)) [0..<?n]"
      by (simp add: clip_box_def)
    have "bound_at lo t j k \<le> bound_at hi t j k" if "k < ?n" for k
      using ord t j that by (simp add: box_ordered_def)
    with e show ?thesis by (simp add: clip_between)
  qed
  from u entry show ?thesis by (simp add: in_box_def)
qed

lemma solve_lqr_subproblem_call:
  assumes "solve_lqr_subproblem m e x_init C c F f dynamics x u no_op = Inr (x', u', r)"
  shows "\<exists>a. LQRStep e a = Inr r \<and> u' = ret_u r
    \<and> lqr_u_lower a = self_u_lower m \<and> lqr_u_upper a = self_u_upper m
    \<and> lqr_T a = self_T m \<and> lqr_n_ctrl a = self_n_ctrl m
    \<and> length (lqr_x_init a) = length x_init
    \<and> lqr_current_u a = u \<and> lqr_no_op_forward a = no_op"
proof (cases "self_slew_rate_penalty m")
  case None
  with assms show ?thesis
    by (auto simp: solve_lqr_subproblem_def bindE_eq_Inr solve_args_def)
next
  case (Some g)
  with assms have "solve_slew m e g x_init C c F f dynamics x u no_op = Inr (x', u', r)"
    by (simp add: solve_lqr_subproblem_def)
  then obtain p x_init' x'' dyn' C' c' F' f' where cat: "cat_mat_1 p x_init = Inr x_init'"
    and call: "LQRStep e (solve_args m (self_n_state m + self_n_ctrl m) dyn' x'' u no_op
                 x_init' C' c' F' f') = Inr r"
    and u': "u' = ret_u r"
    unfolding solve_slew_def Let_def
    by (auto simp: bindE_eq_Inr)
  from zipE_Inr [OF cat [unfolded cat_mat_1_def]] have "length x_init' = length x_init" by simp
  with call u' show ?thesis
    by (intro exI [of _ "solve_args m (self_n_state m + self_n_ctrl m) dyn' x'' u no_op
                 x_init' C' c' F' f'"]) (simp add: solve_args_def)
qed

lemma expand_as_Inr:
  assumes "expand_as I x = Inr Ix"
  shows "Ix = map (\<lambda>xt. map (\<lambda>j. map (\<lambda>_. if I ! src_index (length I) j then 1 else 0) (xt ! j))
                   [0..<length xt]) x"
proof -
  from mapE_Inr [OF assms [unfolded expand_as_def]] have l: "length Ix = length x"
    and e: "\<And>i. i < length x \<Longrightarrow>
       Ix ! i = map (\<lambda>j. map (\<lambda>_. if I ! src_index (length I) j then 1 else 0) (x ! i ! j))
                  [0..<length (x ! i)]"
    by (auto split: if_splits)
  show ?thesis by (rule nth_equalityI) (use l e in auto)
qed

lemma mask_detach_values:
  "map (map (map fst))
     (mask_detach x (map (\<lambda>xt. map (\<lambda>j. map (\<lambda>_. k j) (xt ! j)) [0..<length xt]) x)) = x"
proof -
  let ?mix = "\<lambda>v i. dadd (dmul (var v) i) (dmul (detach (var v)) (1 - i))"
  have row: "map2 ?mix r (map (\<lambda>_. c) r) = map (\<lambda>v. (v, c)) r" for r c
    unfolding map2_const_row by (simp only: mix_value)
  have slice: "map2 (map2 ?mix) xt (map (\<lambda>j. map (\<lambda>_. k j) (xt ! j)) [0..<length xt])
      = map (\<lambda>j. map (\<lambda>v. (v, k j)) (xt ! j)) [0..<length xt]" for xt
    unfolding map2_upt by (simp only: row)
  have m: "mask_detach x (map (\<lambda>xt. map (\<lambda>j. map (\<lambda>_. k j) (xt ! j)) [0..<length xt]) x)
      = map (\<lambda>xt. map (\<lambda>j. map (\<lambda>v. (v, k j)) (xt ! j)) [0..<length xt]) x"
    unfolding mask_detach_def map2_same by (simp only: slice)
  have "map (\<lambda>j. xt ! j) [0..<length xt] = xt" for xt :: "real list list"
    by (rule map_nth)
  then show ?thesis unfolding m by (simp add: comp_def)
qed

lemma var3_values: "map (map (map fst)) (var3 x) = x"
  by (simp add: var3_def var_def comp_def)

lemma detach_unconverged_values:
  assumes "detach_unconverged m b fo x u = Inr (x', u', printed)"
  shows "map (map (map fst)) x' = x \<and> map (map (map fst)) u' = u"
proof -
  have plain: ?thesis if "x' = var3 x" "u' = var3 u"
    using that by (simp add: var3_values)
  show ?thesis
  proof (cases "self_detach_unconverged m")
    case False
    with assms have "x' = var3 x" "u' = var3 u" by (simp_all add: detach_unconverged_def)
    then show ?thesis by (rule plain)
  next
    case on: True
    from assms on obtain mx where mx: "py_max (best_full_du_norm b) = Inr mx"
      by (cases "py_max (best_full_du_norm b)") (simp_all add: detach_unconverged_def)
    show ?thesis
    proof (cases "mx > self_eps m")
      case False
      with assms on mx have "x' = var3 x" "u' = var3 u"
        by (simp_all add: detach_unconverged_def)
      then show ?thesis by (rule plain)
    next
      case over: True
      let ?I = "\<lambda>fo'. map (\<lambda>v. v < self_eps m) (full_du_norm fo')"
      from assms on mx over obtain fo' where fo: "fo = Some fo'"
        and rest: "bindE (expand_as (?I fo') x) (\<lambda>Ix. bindE (expand_as (?I fo') u) (\<lambda>Iu.
            Inr (mask_detach x Ix, mask_detach u Iu,
                 if self_verbose m \<ge> 0 then lqr_warning else [])))
          = Inr (x', u', printed)"
        by (cases fo; cases "self_exit_unconverged m")
           (simp_all add: detach_unconverged_def assertE_def Let_def)
      from rest obtain Ix where Ix: "expand_as (?I fo') x = Inr Ix"
        and rest': "bindE (expand_as (?I fo') u) (\<lambda>Iu.
            Inr (mask_detach x Ix, mask_detach u Iu,
                 if self_verbose m \<ge> 0 then lqr_warning else []))
          = Inr (x', u', printed)"
        by (cases "expand_as (?I fo') x") simp_all
      from rest' obtain Iu where Iu: "expand_as (?I fo') u = Inr Iu"
        and out: "x' = mask_detach x Ix" "u' = mask_detach u Iu"
        by (cases "expand_as (?I fo') u") simp_all
      from out show ?thesis
        unfolding expand_as_Inr [OF Ix] expand_as_Inr [OF Iu]
        by (simp only: mask_detach_values)
    qed
  qed
qed

lemma forward_final_call:
  assumes "forward m e C c dynamics = Inr sol"
  shows "\<exists>C' c' F f x u x' u' r b fo sx printed.
      solve_lqr_subproblem m e (self_x_init m) C' c' F f dynamics x u True = Inr (x', u', r)
      \<and> detach_unconverged m b fo x' u' = Inr (sx, sol_u sol, printed)"
proof -
  from assms obtain n_batch where "forward_with m e n_batch C c dynamics = Inr sol"
    by (auto simp: forward_def bindE_eq_Inr)
  then obtain C' c' st where "finish m e C' c' dynamics st = Inr sol"
    unfolding forward_with_def by (auto simp: bindE_eq_Inr)
  then show ?thesis
    unfolding finish_def by (auto simp: bindE_eq_Inr split: prod.splits) blast
qed

text \<open>
  C1. With the LQR step of the spec, whose forward phase clips every control into the
  box, and with box bounds that are ordered (\<open>u_lower \<le> u_upper\<close> elementwise), every control
  that \<open>forward\<close> returns lies between its bounds exactly, for every timestep, batch element
  and control dimension. With or without a slew-rate penalty, the controls returned are
  those of an LQR step that was called in the no-op forward mode with the solver's bounds.
\<close>

theorem forward_controls_in_box:
  assumes "forward m (e\<lparr>LQRStep := LQRStep_spec p\<rparr>) C c dynamics = Inr sol"
    and "self_u_lower m = Some lo" and "self_u_upper m = Some hi"
    and "box_ordered (self_T m) (length (self_x_init m)) (self_n_ctrl m) lo hi"
  shows "in_box (self_T m) (length (self_x_init m)) (self_n_ctrl m) lo hi
           (map (map (map fst)) (sol_u sol))
    \<and> (\<exists>a r. LQRStep_spec p a = Inr r \<and> lqr_no_op_forward a
          \<and> lqr_u_lower a = Some lo \<and> lqr_u_upper a = Some hi
          \<and> map (map (map fst)) (sol_u sol) = ret_u r)"
proof -
  let ?e = "e\<lparr>LQRStep := LQRStep_spec p\<rparr>"
  from forward_final_call [OF assms(1)] obtain C' c' F f x u x' u' r b fo sx printed where
    solve: "solve_lqr_subproblem m ?e (self_x_init m) C' c' F f dynamics x u True
              = Inr (x', u', r)"
    and det: "detach_unconverged m b fo x' u' = Inr (sx, sol_u sol, printed)"
    by blast
  from solve_lqr_subproblem_call [OF solve] obtain a where
    call: "LQRStep_spec p a = Inr r" and u': "u' = ret_u r"
    and a: "lqr_u_lower a = Some lo" "lqr_u_upper a = Some hi"
      "lqr_T a = self_T m" "lqr_n_ctrl a = self_n_ctrl m"
      "length (lqr_x_init a) = length (self_x_init m)"
    and no_op: "lqr_no_op_forward a"
    using assms(2,3) by auto
  from assms(4) a have "box_ordered (lqr_T a) (length (lqr_x_init a)) (lqr_n_ctrl a) lo hi"
    by simp
  from LQRStep_spec_in_box [OF call a(1,2) this] a u'
  have box: "in_box (self_T m) (length (self_x_init m)) (self_n_ctrl m) lo hi u'" by simp
  from detach_unconverged_values [OF det] have vals: "map (map (map fst)) (sol_u sol) = u'"
    by simp
  from call no_op a(1,2) vals u'
  have "\<exists>a r. LQRStep_spec p a = Inr r \<and> lqr_no_op_forward a
          \<and> lqr_u_lower a = Some lo \<and> lqr_u_upper a = Some hi
          \<and> map (map (map fst)) (sol_u sol) = ret_u r"
    by (intro exI [of _ a] exI [of _ r]) simp
  with box vals show ?thesis by simp
qed

theorem forward_controls_in_box_witness:
  "forward mpc_box (toy_env\<lparr>LQRStep := LQRStep_spec parts_ex\<rparr>) C_box c_box None
     = Inr \<lparr> sol_x = [[[(1, 1)]], [[(1 / 2, 1)]]], sol_u = [[[(- 1 / 2, 1)]], [[(- 1 / 2, 1)]]],
             sol_costs = [7 / 8], sol_printed = [] \<rparr>
   \<and> MPC_init mpc_slew = Inr mpc_slew
   \<and> forward mpc_slew (traj_env\<lparr>LQRStep := LQRStep_spec parts_ex\<rparr>) C_one c_box (Some add_dyn)
     = Inr \<lparr> sol_x = [[[(1, 1)]], [[(1 / 2, 1)]]], sol_u = [[[(- 1 / 2, 1)]], [[(- 1 / 2, 1)]]],
             sol_costs = [61 / 32], sol_printed = [] \<rparr>
   \<and> box_ordered 2 1 1 (BFloat (- 1 / 2)) (BFloat (1 / 2))
   \<and> in_box 2 1 1 (BFloat (- 1 / 2)) (BFloat (1 / 2)) [[[- 1 / 2]], [[- 1 / 2]]]
   \<and> (\<exists>a r. LQRStep_spec parts_ex a = Inr r \<and> lqr_no_op_forward a
         \<and> ret_u r = [[[- 1 / 2]], [[- 1 / 2]]])"
proof -
  have run: "forward mpc_box (toy_env\<lparr>LQRStep := LQRStep_spec parts_ex\<rparr>) C_box c_box None
     = Inr \<lparr> sol_x = [[[(1, 1)]], [[(1 / 2, 1)]]], sol_u = [[[(- 1 / 2, 1)]], [[(- 1 / 2, 1)]]],
             sol_costs = [7 / 8], sol_printed = [] \<rparr>"
    by code_simp
  have slew: "forward mpc_slew (traj_env\<lparr>LQRStep := LQRStep_spec parts_ex\<rparr>) C_one c_box
       (Some add_dyn)
     = Inr \<lparr> sol_x = [[[(1, 1)]], [[(1 / 2, 1)]]], sol_u = [[[(- 1 / 2, 1)]], [[(- 1 / 2, 1)]]],
             sol_costs = [61 / 32], sol_printed = [] \<rparr>"
    by code_simp
  have init: "MPC_init mpc_slew = Inr mpc_slew"
    by (simp add: MPC_init_def mpc_slew_def mpc_example_def assertE_def)
  have lo: "self_u_lower mpc_box = Some (BFloat (- 1 / 2))"
    and hi: "self_u_upper mpc_box = Some (BFloat (1 / 2))"
    and lo': "self_u_lower mpc_slew = Some (BFloat (- 1 / 2))"
    and hi': "self_u_upper mpc_slew = Some (BFloat (1 / 2))"
    by (simp_all add: mpc_box_def mpc_slew_def)
  have sizes: "self_T mpc_box = 2" "length (self_x_init mpc_box) = 1" "self_n_ctrl mpc_box = 1"
    "self_T mpc_slew = 2" "length (self_x_init mpc_slew) = 1" "self_n_ctrl mpc_slew = 1"
    by (simp_all add: mpc_box_def mpc_slew_def mpc_example_def)
  have ord: "box_ordered 2 1 1 (BFloat (- 1 / 2)) (BFloat (1 / 2))"
    by (simp add: box_ordered_def bound_at_def)
  from forward_controls_in_box [OF run lo hi] ord sizes
  have box: "in_box 2 1 1 (BFloat (- 1 / 2)) (BFloat (1 / 2)) [[[- 1 / 2]], [[- 1 / 2]]]"
    by simp
  from forward_controls_in_box [OF slew lo' hi'] ord sizes
  have step: "\<exists>a r. LQRStep_spec parts_ex a = Inr r \<and> lqr_no_op_forward a
         \<and> ret_u r = [[[- 1 / 2]], [[- 1 / 2]]]"
    by simp metis
  from run init slew ord box step show ?thesis by simp
qed

end
